theory Spec2Isabelle
  imports Complex_Main "HOL-Library.AList" "HOL-Library.Multiset"
begin

section \<open>Data model\<close>

text \<open>
  Modelling conventions.
  \<^item> A \<^verbatim>\<open>datetime\<close> is a rational number of seconds; \<^verbatim>\<open>(a - b).total_seconds()\<close> is
    \<open>a - b\<close> and \<^verbatim>\<open>timedelta(minutes=2)\<close> is \<open>120\<close>. Binary floating point rounding is
    not represented: every float of the source is an exact rational here.
  \<^item> Every function of the source that reads the clock takes the reading as its first
    argument; a nested call (\<^verbatim>\<open>log_event\<close>, \<^verbatim>\<open>upsert_player\<close>) receives the reading of
    its caller.
  \<^item> A Python \<^verbatim>\<open>dict\<close> held in memory is an association list in insertion order
    (\<open>AList.update\<close> keeps the position of an existing key and appends a new one,
    \<open>AList.delete\<close> is \<^verbatim>\<open>del\<close>); a MongoDB collection keyed by a unique index is a map,
    an append-only collection is a list in insertion order.
  \<^item> The store always acknowledges: the \<^verbatim>\<open>except\<close> branches of the source, which only
    log, are never taken.
  \<^item> The fields of one record per class are kept in a single state record; the field
    names are those of the source.
\<close>

record player_entry =
  pe_name :: string
  pe_ping :: int
  pe_identifiers :: "string list"
  pe_job :: string
  pe_role :: string

record tracked =
  last_update :: rat
  tr_ping :: int
  tr_identifiers :: "string list"
  tr_job :: string
  tr_role :: string

record player_doc =
  doc_identifiers :: "string list"
  firstSeen :: rat
  lastSeen :: rat
  playtime :: int
  totalSessions :: int
  doc_ping :: int
  doc_job :: string
  doc_role :: string
  status :: "string option"

record event_details =
  d_ping :: "int option"
  d_identifiers :: "string list option"
  d_session_duration :: "rat option"
  d_reason :: "string option"

record event =
  ev_timestamp :: rat
  event_type :: string
  player_name :: string
  details :: event_details

record ping_sample =
  ps_timestamp :: rat
  low :: rat
  avg :: rat
  high :: rat
  server_ping :: rat

record upsert_args =
  ua_name :: string
  ua_identifiers :: "string list"
  ua_ping :: int
  ua_session_time :: int
  ua_job :: string
  ua_role :: string

record server_data =
  online :: bool
  clients :: int
  sd_ping :: rat
  sd_players :: "player_entry list"

text \<open>
  \<open>current_players\<close>, \<open>session_start_times\<close>: \<^verbatim>\<open>AnalyticsManager\<close>.
  \<open>players\<close>, \<open>event_logs\<close>, \<open>ping_logs\<close>: the collections behind \<^verbatim>\<open>DatabaseManager\<close>.
  \<open>previous_players\<close>, \<open>player_join_times\<close>: \<^verbatim>\<open>NotificationManager\<close>.
  \<open>server_status\<close>, \<open>players_data\<close>, \<open>last_server_online\<close>: \<^verbatim>\<open>MotionlifeBot\<close>.
\<close>

record state =
  current_players :: "(string \<times> tracked) list"
  session_start_times :: "(string \<times> rat) list"
  players :: "string \<rightharpoonup> player_doc"
  event_logs :: "event list"
  ping_logs :: "ping_sample list"
  previous_players :: "string list"
  player_join_times :: "(string \<times> rat) list"
  server_status :: server_data
  players_data :: "player_entry list"
  last_server_online :: bool

definition init_state :: state where
  "init_state =
     \<lparr>current_players = [], session_start_times = [], players = Map.empty,
      event_logs = [], ping_logs = [], previous_players = [], player_join_times = [],
      server_status = \<lparr>online = False, clients = 0, sd_ping = 0, sd_players = []\<rparr>,
      players_data = [], last_server_online = False\<rparr>"

section \<open>DatabaseManager\<close>

text \<open>
  \<^verbatim>\<open>upsert_player\<close>: \<^verbatim>\<open>$set\<close> refreshes the metadata, \<^verbatim>\<open>$inc\<close> adds \<^verbatim>\<open>session_time\<close> to
  \<^verbatim>\<open>playtime\<close>, \<^verbatim>\<open>$setOnInsert\<close> gives a new document \<^verbatim>\<open>firstSeen\<close> and
  \<^verbatim>\<open>totalSessions = 0\<close>. All callers pass every key, so the \<^verbatim>\<open>.get\<close> defaults are
  not needed.
\<close>

definition upsert_player :: "rat \<Rightarrow> upsert_args \<Rightarrow> state \<Rightarrow> state" where
  "upsert_player now pd st =
     st\<lparr>players := (players st)(ua_name pd \<mapsto>
       (case players st (ua_name pd) of
          None \<Rightarrow>
            \<lparr>doc_identifiers = ua_identifiers pd, firstSeen = now, lastSeen = now,
             playtime = ua_session_time pd, totalSessions = 0, doc_ping = ua_ping pd,
             doc_job = ua_job pd, doc_role = ua_role pd, status = None\<rparr>
        | Some d \<Rightarrow>
            d\<lparr>doc_identifiers := ua_identifiers pd, lastSeen := now,
              doc_job := ua_job pd, doc_role := ua_role pd, doc_ping := ua_ping pd,
              playtime := playtime d + ua_session_time pd\<rparr>))\<rparr>"

text \<open>\<^verbatim>\<open>increment_player_sessions\<close>: \<^verbatim>\<open>update_one\<close> without \<^verbatim>\<open>upsert\<close>, so a name with no
  document is left without one.\<close>

definition increment_player_sessions :: "string \<Rightarrow> state \<Rightarrow> state" where
  "increment_player_sessions n st =
     (case players st n of
        None \<Rightarrow> st
      | Some d \<Rightarrow> st\<lparr>players := (players st)(n \<mapsto> d\<lparr>totalSessions := totalSessions d + 1\<rparr>)\<rparr>)"

definition log_event :: "rat \<Rightarrow> string \<Rightarrow> string \<Rightarrow> event_details \<Rightarrow> state \<Rightarrow> state" where
  "log_event now ty n d st =
     (let st1 = st\<lparr>event_logs := event_logs st @
                   [\<lparr>ev_timestamp = now, event_type = ty, player_name = n, details = d\<rparr>]\<rparr>
      in if ty = ''join'' then increment_player_sessions n st1 else st1)"

definition log_ping_data_db :: "rat \<Rightarrow> rat \<times> rat \<times> rat \<times> rat \<Rightarrow> state \<Rightarrow> state" where
  "log_ping_data_db now ping_stats st =
     (case ping_stats of (lo, av, hi, sp) \<Rightarrow>
        st\<lparr>ping_logs := ping_logs st @
             [\<lparr>ps_timestamp = now, low = lo, avg = av, high = hi, server_ping = sp\<rparr>]\<rparr>)"

text \<open>The cumulative playtime stored for a name; a name with no document has none.\<close>

definition playtime_of :: "string \<Rightarrow> state \<Rightarrow> int" where
  "playtime_of n st = (case players st n of None \<Rightarrow> 0 | Some d \<Rightarrow> playtime d)"

section \<open>AnalyticsManager: presence reconciliation\<close>

text \<open>
  \<^verbatim>\<open>int(x % 30)\<close> on a float: Python's \<^verbatim>\<open>%\<close> takes the sign of the divisor, \<^verbatim>\<open>int\<close>
  truncates towards zero.
\<close>

definition py_fmod :: "rat \<Rightarrow> rat \<Rightarrow> rat" where
  "py_fmod x m = x - m * of_int \<lfloor>x / m\<rfloor>"

definition py_int :: "rat \<Rightarrow> int" where
  "py_int x = (if 0 \<le> x then \<lfloor>x\<rfloor> else \<lceil>x\<rceil>)"

text \<open>
  The body of the first loop of \<^verbatim>\<open>update_player_data\<close>, for one roster entry. A missing
  name (\<^verbatim>\<open>None\<close>) is the empty string here: both are falsy.
\<close>

definition process_player :: "rat \<Rightarrow> player_entry \<Rightarrow> state \<Rightarrow> state" where
  "process_player current_time player st =
     (let pname = pe_name player; player_ping = pe_ping player in
      if pname = [] \<or> pname = ''Unknown'' then st
      else
        let is_new = (map_of (current_players st) pname = None);
            st1 = (if is_new
                   then log_event current_time ''join'' pname
                          \<lparr>d_ping = Some player_ping,
                           d_identifiers = Some (pe_identifiers player),
                           d_session_duration = None, d_reason = None\<rparr>
                          (st\<lparr>session_start_times :=
                                AList.update pname current_time (session_start_times st)\<rparr>)
                   else st);
            session_time_increment = (if is_new then 0 else 30);
            st2 = st1\<lparr>current_players :=
                        AList.update pname
                          \<lparr>last_update = current_time, tr_ping = player_ping,
                           tr_identifiers = pe_identifiers player,
                           tr_job = pe_job player, tr_role = pe_role player\<rparr>
                          (current_players st1)\<rparr>
        in upsert_player current_time
             \<lparr>ua_name = pname, ua_identifiers = pe_identifiers player,
              ua_ping = player_ping, ua_session_time = session_time_increment,
              ua_job = pe_job player, ua_role = pe_role player\<rparr> st2)"

fun process_players :: "rat \<Rightarrow> player_entry list \<Rightarrow> state \<Rightarrow> state" where
  "process_players current_time [] st = st"
| "process_players current_time (player # rest) st =
     process_players current_time rest (process_player current_time player st)"

text \<open>The set \<^verbatim>\<open>current_player_names\<close> that the first loop builds: the names that pass
  its guard.\<close>

definition current_player_names :: "player_entry list \<Rightarrow> string set" where
  "current_player_names roster =
     set (filter (\<lambda>n. \<not> (n = [] \<or> n = ''Unknown'')) (map pe_name roster))"

text \<open>
  The body of the second loop, for one name of \<^verbatim>\<open>left_players\<close>. The name is a key of
  \<^verbatim>\<open>current_players\<close> by construction, so the lookups of the tracked entry succeed.
\<close>

definition leave_player :: "rat \<Rightarrow> string \<Rightarrow> state \<Rightarrow> state" where
  "leave_player current_time pname st =
     (let st3 =
        (case map_of (session_start_times st) pname of
           None \<Rightarrow> st
         | Some start \<Rightarrow>
             let session_duration = current_time - start;
                 st1 = log_event current_time ''leave'' pname
                         \<lparr>d_ping = None, d_identifiers = None,
                          d_session_duration = Some session_duration, d_reason = None\<rparr> st;
                 remaining_time = py_int (py_fmod session_duration 30);
                 st2 = (if remaining_time > 0
                        then (case map_of (current_players st1) pname of
                                None \<Rightarrow> st1
                              | Some tr \<Rightarrow>
                                  upsert_player current_time
                                    \<lparr>ua_name = pname, ua_identifiers = tr_identifiers tr,
                                     ua_ping = tr_ping tr, ua_session_time = remaining_time,
                                     ua_job = tr_job tr, ua_role = tr_role tr\<rparr> st1)
                        else st1)
             in st2\<lparr>session_start_times := AList.delete pname (session_start_times st2)\<rparr>)
      in st3\<lparr>current_players := AList.delete pname (current_players st3)\<rparr>)"

fun leave_players :: "rat \<Rightarrow> string list \<Rightarrow> state \<Rightarrow> state" where
  "leave_players current_time [] st = st"
| "leave_players current_time (n # rest) st =
     leave_players current_time rest (leave_player current_time n st)"

text \<open>
  \<^verbatim>\<open>update_player_data\<close>. \<^verbatim>\<open>left_players\<close> is a Python set, iterated in an order the
  language does not fix; here it is iterated in the order of the keys of
  \<^verbatim>\<open>current_players\<close>.
\<close>

definition update_player_data :: "rat \<Rightarrow> player_entry list \<Rightarrow> state \<Rightarrow> state" where
  "update_player_data current_time roster st =
     (let st1 = process_players current_time roster st;
          left_players =
            remdups (filter (\<lambda>n. n \<notin> current_player_names roster)
                            (map fst (current_players st1)))
      in leave_players current_time left_players st1)"

section \<open>AnalyticsManager: ping logging\<close>

definition log_ping_data :: "rat \<Rightarrow> rat \<Rightarrow> state \<Rightarrow> state" where
  "log_ping_data now srv_ping st =
     (let player_pings = filter (\<lambda>p. p > 0) (map (\<lambda>(n, d). tr_ping d) (current_players st));
          ping_stats =
            (if player_pings = [] then (srv_ping, srv_ping, srv_ping, srv_ping)
             else (of_int (Min (set player_pings)),
                   of_int (sum_list player_pings) / of_nat (length player_pings),
                   of_int (Max (set player_pings)),
                   srv_ping))
      in log_ping_data_db now ping_stats st)"

section \<open>AnalyticsManager: the reaper\<close>

definition reap_player :: "rat \<Rightarrow> string \<Rightarrow> state \<Rightarrow> state" where
  "reap_player current_time pname st =
     (let st2 =
        (case map_of (session_start_times st) pname of
           None \<Rightarrow> st
         | Some start \<Rightarrow>
             let session_duration = current_time - start;
                 st1 = log_event current_time ''leave'' pname
                         \<lparr>d_ping = None, d_identifiers = None,
                          d_session_duration = Some session_duration,
                          d_reason = Some ''timeout''\<rparr> st
             in st1\<lparr>session_start_times := AList.delete pname (session_start_times st1)\<rparr>)
      in st2\<lparr>current_players := AList.delete pname (current_players st2)\<rparr>)"

fun reap_players :: "rat \<Rightarrow> string list \<Rightarrow> state \<Rightarrow> state" where
  "reap_players current_time [] st = st"
| "reap_players current_time (n # rest) st =
     reap_players current_time rest (reap_player current_time n st)"

definition offline_threshold :: rat where
  "offline_threshold = 2 * 60"

definition clean_offline_players :: "rat \<Rightarrow> state \<Rightarrow> state" where
  "clean_offline_players current_time st =
     (let offline_players =
            map fst (filter (\<lambda>(n, d). current_time - last_update d > offline_threshold)
                            (current_players st))
      in reap_players current_time offline_players st)"

section \<open>AnalyticsManager: peak concurrency\<close>

text \<open>
  \<^verbatim>\<open>get_recent_events\<close>: \<^verbatim>\<open>find().sort("timestamp", DESCENDING).limit(limit)\<close>. The order
  the store gives to equal timestamps is not fixed by the source; here the sort is stable.
\<close>

definition get_recent_events :: "nat \<Rightarrow> state \<Rightarrow> event list" where
  "get_recent_events limit st = take limit (sort_key (\<lambda>e. - ev_timestamp e) (event_logs st))"

text \<open>The replay loop of \<^verbatim>\<open>_calculate_peak_players\<close>, with its two loop variables.\<close>

fun replay :: "event list \<Rightarrow> string set \<Rightarrow> nat \<Rightarrow> nat" where
  "replay [] concurrent_players max_concurrent = max_concurrent"
| "replay (e # es) concurrent_players max_concurrent =
     (let concurrent_players' =
            (if event_type e = ''join'' then insert (player_name e) concurrent_players
             else if event_type e = ''leave'' then concurrent_players - {player_name e}
             else concurrent_players)
      in replay es concurrent_players' (max max_concurrent (card concurrent_players')))"

definition calculate_peak_players :: "rat \<Rightarrow> int \<Rightarrow> state \<Rightarrow> nat" where
  "calculate_peak_players now days st =
     (let cutoff = now - of_int days * 86400;
          events = filter (\<lambda>e. ev_timestamp e \<ge> cutoff) (get_recent_events 1000 st)
      in if events = [] then length (current_players st)
         else replay (sort_key ev_timestamp events) {} 0)"

section \<open>DatabaseManager: ping statistics\<close>

record ping_stats =
  stat_low :: rat
  stat_avg :: rat
  stat_high :: rat
  stat_min :: rat
  stat_max :: rat

text \<open>
  \<^verbatim>\<open>round(x, 1)\<close> is Python's built-in, which acts on the binary double behind \<open>x\<close>;
  the doubles are not part of this model, so the built-in is the parameter \<open>round1\<close> of
  \<open>get_ping_stats\<close>.
\<close>

text \<open>The accumulator \<^verbatim>\<open>$avg\<close> of the aggregation pipeline, on a non-empty group.\<close>

definition mongo_avg :: "rat list \<Rightarrow> rat" where
  "mongo_avg xs = sum_list xs / of_nat (length xs)"

text \<open>
  \<^verbatim>\<open>get_ping_stats\<close>: \<^verbatim>\<open>$match\<close> keeps the samples of the window, \<^verbatim>\<open>$group\<close> with
  \<^verbatim>\<open>_id: None\<close> yields one result for a non-empty input and none for an empty one.
\<close>

definition get_ping_stats ::
    "(rat \<Rightarrow> rat) \<Rightarrow> rat \<Rightarrow> int \<Rightarrow> state \<Rightarrow> ping_stats option" where
  "get_ping_stats round1 now hours st =
     (let cutoff = now - of_int hours * 3600;
          matched = filter (\<lambda>s. ps_timestamp s \<ge> cutoff) (ping_logs st)
      in if matched \<noteq> [] \<and> length matched > 0
         then Some \<lparr>stat_low = round1 (mongo_avg (map low matched)),
                    stat_avg = round1 (mongo_avg (map avg matched)),
                    stat_high = round1 (mongo_avg (map high matched)),
                    stat_min = round1 (Min (set (map low matched))),
                    stat_max = round1 (Max (set (map high matched)))\<rparr>
         else None)"

section \<open>NotificationManager\<close>

text \<open>
  Only the effects on the store and on the manager's own fields are kept; building and
  sending the embeds is not. The manager reads the local clock (\<open>lnow\<close>) for its own
  durations, \<^verbatim>\<open>log_event\<close> reads UTC (\<open>now\<close>).
\<close>

definition handle_player_join :: "rat \<Rightarrow> player_entry list \<Rightarrow> string \<Rightarrow> state \<Rightarrow> state" where
  "handle_player_join now cpd pname st =
     (case find (\<lambda>p. pe_name p = pname) cpd of
        None \<Rightarrow> st
      | Some player \<Rightarrow>
          log_event now ''join'' pname
            \<lparr>d_ping = Some (pe_ping player), d_identifiers = Some (pe_identifiers player),
             d_session_duration = None, d_reason = None\<rparr> st)"

definition handle_player_leave :: "rat \<Rightarrow> rat \<Rightarrow> string \<Rightarrow> state \<Rightarrow> state" where
  "handle_player_leave lnow now pname st =
     (let session_duration =
            (case map_of (player_join_times st) pname of
               None \<Rightarrow> 0
             | Some join_time \<Rightarrow> lnow - join_time)
      in log_event now ''leave'' pname
           \<lparr>d_ping = None, d_identifiers = None,
            d_session_duration = Some session_duration, d_reason = None\<rparr> st)"

definition check_player_changes :: "rat \<Rightarrow> rat \<Rightarrow> player_entry list \<Rightarrow> state \<Rightarrow> state" where
  "check_player_changes lnow now cpd st =
     (let current = remdups (filter (\<lambda>n. n \<noteq> []) (map pe_name cpd));
          joined_players = filter (\<lambda>n. n \<notin> set (previous_players st)) current;
          left_players = filter (\<lambda>n. n \<notin> set current) (previous_players st);
          st1 = fold (handle_player_join now cpd) joined_players st;
          st2 = fold (handle_player_leave lnow now) left_players st1;
          st3 = st2\<lparr>previous_players := current\<rparr>;
          st4 = st3\<lparr>player_join_times :=
                      fold (\<lambda>n jt. if map_of jt n = None then AList.update n lnow jt else jt)
                           current (player_join_times st3)\<rparr>
      in st4\<lparr>player_join_times := fold AList.delete left_players (player_join_times st4)\<rparr>)"

section \<open>FiveMAPI: the snapshot fetcher\<close>

text \<open>
  \<^verbatim>\<open>str.strip\<close> and \<^verbatim>\<open>str.lower\<close> are built-ins that consult the Unicode tables:
  \<^verbatim>\<open>strip\<close> removes every leading and trailing character for which \<^verbatim>\<open>str.isspace\<close>
  holds, \<^verbatim>\<open>lower\<close> maps every cased character. The tables are not part of the
  repository, so the two built-ins are the parameters \<open>str_strip\<close> and \<open>str_lower\<close> of
  the fetcher; a name is a list of characters on which only these two and equality act.
\<close>

record raw_player =
  rp_name :: string
  rp_ping :: int
  rp_identifiers :: "string list"

text \<open>
  The loop of \<^verbatim>\<open>get_players\<close> over the entries of \<^verbatim>\<open>/players.json\<close>
  (\<open>rp_name\<close> is \<^verbatim>\<open>str(player_data.get('name', ''))\<close>).
\<close>

fun parse_players ::
    "(string \<Rightarrow> string) \<Rightarrow> (string \<Rightarrow> string) \<Rightarrow> raw_player list \<Rightarrow> player_entry list" where
  "parse_players str_strip str_lower [] = []"
| "parse_players str_strip str_lower (player_data # rest) =
     (let pname = str_strip (rp_name player_data) in
      if pname = [] \<or> str_lower pname \<in> set [''unknown'', [], ''null'']
      then parse_players str_strip str_lower rest
      else \<lparr>pe_name = pname, pe_ping = rp_ping player_data,
            pe_identifiers = rp_identifiers player_data,
            pe_job = ''civilian'', pe_role = ''civilian''\<rparr>
           # parse_players str_strip str_lower rest)"

text \<open>\<open>None\<close> is a failed or malformed response.\<close>

definition get_players ::
    "(string \<Rightarrow> string) \<Rightarrow> (string \<Rightarrow> string) \<Rightarrow> raw_player list option
       \<Rightarrow> player_entry list" where
  "get_players str_strip str_lower data =
     (case data of None \<Rightarrow> [] | Some l \<Rightarrow> parse_players str_strip str_lower l)"

text \<open>
  \<^verbatim>\<open>get_comprehensive_server_data\<close>, from the result of \<^verbatim>\<open>get_server_status\<close> and the
  response of \<^verbatim>\<open>/players.json\<close>.
\<close>

definition get_comprehensive_server_data ::
    "(string \<Rightarrow> string) \<Rightarrow> (string \<Rightarrow> string) \<Rightarrow> server_data option
       \<Rightarrow> raw_player list option \<Rightarrow> server_data option" where
  "get_comprehensive_server_data str_strip str_lower status_data raw =
     (case status_data of
        None \<Rightarrow> Some \<lparr>online = False, clients = 0, sd_ping = 0, sd_players = []\<rparr>
      | Some sd \<Rightarrow>
          if \<not> online sd
          then Some \<lparr>online = False, clients = 0, sd_ping = 0, sd_players = []\<rparr>
          else Some (sd\<lparr>sd_players := get_players str_strip str_lower raw\<rparr>))"

section \<open>MotionlifeBot: the poll tick and the cleanup task\<close>

definition update_server_status :: "rat \<Rightarrow> rat \<Rightarrow> server_data option \<Rightarrow> state \<Rightarrow> state" where
  "update_server_status now lnow data st =
     (if (case data of None \<Rightarrow> False | Some sd \<Rightarrow> online sd)
      then
        (let sd = the data;
             st1 = st\<lparr>server_status := sd\<rparr>;
             st2 = (if sd_players sd \<noteq> []
                    then check_player_changes lnow now (sd_players sd)
                           (log_ping_data now (sd_ping (server_status st1))
                              (update_player_data now (sd_players sd)
                                 (st1\<lparr>players_data := sd_players sd\<rparr>)))
                    else st1)
         in st2\<lparr>last_server_online := True\<rparr>)
      else
        st\<lparr>server_status := (server_status st)\<lparr>online := False, clients := 0, sd_ping := 0\<rparr>,
           players_data := [], last_server_online := False\<rparr>)"

definition cleanup_old_data :: "rat \<Rightarrow> state \<Rightarrow> state" where
  "cleanup_old_data now st =
     st\<lparr>ping_logs := filter (\<lambda>s. \<not> ps_timestamp s < now - 30 * 86400) (ping_logs st),
        event_logs := filter (\<lambda>e. \<not> ev_timestamp e < now - 90 * 86400) (event_logs st),
        players := (\<lambda>n. map_option
                      (\<lambda>d. if lastSeen d < now - 30 * 86400
                            then d\<lparr>status := Some ''inactive''\<rparr> else d)
                      (players st n))\<rparr>"

definition cleanup_task :: "rat \<Rightarrow> nat \<Rightarrow> state \<Rightarrow> state" where
  "cleanup_task now current_hour st =
     (let st1 = clean_offline_players now st
      in if current_hour = 0 then cleanup_old_data now st1 else st1)"

text \<open>
  A run of the bot: poll ticks (with the UTC and local clock readings and the snapshot
  that \<^verbatim>\<open>get_comprehensive_server_data\<close> returned) and cleanup ticks, one at a time, from
  the state the constructors set up.
\<close>

datatype tick =
    Poll rat rat "server_data option"
  | Cleanup rat nat

fun step :: "tick \<Rightarrow> state \<Rightarrow> state" where
  "step (Poll now lnow data) st = update_server_status now lnow data st"
| "step (Cleanup now current_hour) st = cleanup_task now current_hour st"

fun run :: "tick list \<Rightarrow> state \<Rightarrow> state" where
  "run [] st = st"
| "run (t # ts) st = run ts (step t st)"

text \<open>
  The same with the fetcher in the loop: a poll tick given as the two responses of the
  status source, of which \<open>get_comprehensive_server_data\<close> makes the snapshot of the tick.
\<close>

datatype raw_tick =
    RawPoll rat rat "server_data option" "raw_player list option"
  | RawCleanup rat nat

fun fetch :: "(string \<Rightarrow> string) \<Rightarrow> (string \<Rightarrow> string) \<Rightarrow> raw_tick \<Rightarrow> tick" where
  "fetch str_strip str_lower (RawPoll now lnow status_data raw) =
     Poll now lnow (get_comprehensive_server_data str_strip str_lower status_data raw)"
| "fetch str_strip str_lower (RawCleanup now current_hour) = Cleanup now current_hour"

section \<open>The state as seen by one player\<close>

text \<open>
  Every operation of the reconciler and of the reaper touches, for a name \<open>q\<close>, only
  what the state holds under \<open>q\<close>: the tracked entry, the session start, the stored
  document and the events that carry the name. \<open>view q\<close> is that part of the state, and
  \<open>v_process\<close>, \<open>v_leave\<close> and \<open>v_reap\<close> are the loop bodies acting on it. They are
  proof devices: the lemmas \<open>view_process_player\<close>, \<open>view_leave_player\<close> and
  \<open>view_reap_player\<close> show that the operations above act on the view exactly so.
\<close>

record pview =
  v_tracked :: "tracked option"
  v_started :: "rat option"
  v_doc :: "player_doc option"
  v_events :: "event list"

definition view :: "string \<Rightarrow> state \<Rightarrow> pview" where
  "view q st =
     \<lparr>v_tracked = map_of (current_players st) q,
      v_started = map_of (session_start_times st) q,
      v_doc = players st q,
      v_events = filter (\<lambda>e. player_name e = q) (event_logs st)\<rparr>"

definition v_upsert :: "rat \<Rightarrow> upsert_args \<Rightarrow> pview \<Rightarrow> pview" where
  "v_upsert now pd v =
     v\<lparr>v_doc := Some
       (case v_doc v of
          None \<Rightarrow>
            \<lparr>doc_identifiers = ua_identifiers pd, firstSeen = now, lastSeen = now,
             playtime = ua_session_time pd, totalSessions = 0, doc_ping = ua_ping pd,
             doc_job = ua_job pd, doc_role = ua_role pd, status = None\<rparr>
        | Some d \<Rightarrow>
            d\<lparr>doc_identifiers := ua_identifiers pd, lastSeen := now,
              doc_job := ua_job pd, doc_role := ua_role pd, doc_ping := ua_ping pd,
              playtime := playtime d + ua_session_time pd\<rparr>)\<rparr>"

definition v_log_event :: "rat \<Rightarrow> string \<Rightarrow> string \<Rightarrow> event_details \<Rightarrow> pview \<Rightarrow> pview" where
  "v_log_event now ty n d v =
     v\<lparr>v_events := v_events v @
          [\<lparr>ev_timestamp = now, event_type = ty, player_name = n, details = d\<rparr>],
       v_doc := (if ty = ''join''
                 then map_option (\<lambda>d. d\<lparr>totalSessions := totalSessions d + 1\<rparr>) (v_doc v)
                 else v_doc v)\<rparr>"

definition v_process :: "rat \<Rightarrow> player_entry \<Rightarrow> pview \<Rightarrow> pview" where
  "v_process now player v =
     (let pname = pe_name player in
      if pname = [] \<or> pname = ''Unknown'' then v
      else
        let is_new = (v_tracked v = None);
            v1 = (if is_new
                  then v_log_event now ''join'' pname
                         \<lparr>d_ping = Some (pe_ping player),
                          d_identifiers = Some (pe_identifiers player),
                          d_session_duration = None, d_reason = None\<rparr>
                         (v\<lparr>v_started := Some now\<rparr>)
                  else v);
            v2 = v1\<lparr>v_tracked := Some
                      \<lparr>last_update = now, tr_ping = pe_ping player,
                       tr_identifiers = pe_identifiers player,
                       tr_job = pe_job player, tr_role = pe_role player\<rparr>\<rparr>
        in v_upsert now
             \<lparr>ua_name = pname, ua_identifiers = pe_identifiers player,
              ua_ping = pe_ping player, ua_session_time = (if is_new then 0 else 30),
              ua_job = pe_job player, ua_role = pe_role player\<rparr> v2)"

definition v_leave :: "rat \<Rightarrow> string \<Rightarrow> pview \<Rightarrow> pview" where
  "v_leave now pname v =
     (let v3 =
        (case v_started v of
           None \<Rightarrow> v
         | Some start \<Rightarrow>
             let session_duration = now - start;
                 v1 = v_log_event now ''leave'' pname
                         \<lparr>d_ping = None, d_identifiers = None,
                          d_session_duration = Some session_duration, d_reason = None\<rparr> v;
                 remaining_time = py_int (py_fmod session_duration 30);
                 v2 = (if remaining_time > 0
                        then (case v_tracked v1 of
                                None \<Rightarrow> v1
                              | Some tr \<Rightarrow>
                                  v_upsert now
                                    \<lparr>ua_name = pname, ua_identifiers = tr_identifiers tr,
                                     ua_ping = tr_ping tr, ua_session_time = remaining_time,
                                     ua_job = tr_job tr, ua_role = tr_role tr\<rparr> v1)
                        else v1)
             in v2\<lparr>v_started := None\<rparr>)
      in v3\<lparr>v_tracked := None\<rparr>)"

definition v_reap :: "rat \<Rightarrow> string \<Rightarrow> pview \<Rightarrow> pview" where
  "v_reap now pname v =
     (let v2 =
        (case v_started v of
           None \<Rightarrow> v
         | Some start \<Rightarrow>
             (v_log_event now ''leave'' pname
                 \<lparr>d_ping = None, d_identifiers = None,
                  d_session_duration = Some (now - start),
                  d_reason = Some ''timeout''\<rparr> v)\<lparr>v_started := None\<rparr>)
      in v2\<lparr>v_tracked := None\<rparr>)"

text \<open>
  What holds of every name in every state the bot reaches: it is tracked exactly when it has
  a session start, and a tracked name has a stored document.
\<close>

definition consistent :: "pview \<Rightarrow> bool" where
  "consistent v \<longleftrightarrow>
     (v_tracked v = None \<longleftrightarrow> v_started v = None) \<and> (v_tracked v \<noteq> None \<longrightarrow> v_doc v \<noteq> None)"

definition v_playtime :: "pview \<Rightarrow> int" where
  "v_playtime v = (case v_doc v of None \<Rightarrow> 0 | Some d \<Rightarrow> playtime d)"

definition v_sessions :: "pview \<Rightarrow> int" where
  "v_sessions v = (case v_doc v of None \<Rightarrow> 0 | Some d \<Rightarrow> totalSessions d)"

section \<open>Notions used in the statements\<close>

text \<open>The events that carry a name, its session counter, and the two shapes of event the
  reconciler and the reaper write.\<close>

definition events_of :: "string \<Rightarrow> state \<Rightarrow> event list" where
  "events_of q st = filter (\<lambda>e. player_name e = q) (event_logs st)"

definition sessions_of :: "string \<Rightarrow> state \<Rightarrow> int" where
  "sessions_of q st = (case players st q of None \<Rightarrow> 0 | Some d \<Rightarrow> totalSessions d)"

definition join_event :: "rat \<Rightarrow> player_entry \<Rightarrow> event" where
  "join_event now p =
     \<lparr>ev_timestamp = now, event_type = ''join'', player_name = pe_name p,
      details = \<lparr>d_ping = Some (pe_ping p), d_identifiers = Some (pe_identifiers p),
                 d_session_duration = None, d_reason = None\<rparr>\<rparr>"

definition leave_event :: "rat \<Rightarrow> string \<Rightarrow> rat \<Rightarrow> string option \<Rightarrow> event" where
  "leave_event now q duration reason =
     \<lparr>ev_timestamp = now, event_type = ''leave'', player_name = q,
      details = \<lparr>d_ping = None, d_identifiers = None,
                 d_session_duration = Some duration, d_reason = reason\<rparr>\<rparr>"

text \<open>What the examples show of an event, and the leave events of a name that carry the
  reason \<^verbatim>\<open>departed\<close>.\<close>

definition event_summary :: "event \<Rightarrow> rat \<times> string \<times> string option" where
  "event_summary e = (ev_timestamp e, event_type e, d_reason (details e))"


text \<open>
  The clock reading of a tick; a poll tick that is reconciled with \<open>q\<close> online: the
  snapshot is online, its names are unique and \<open>q\<close> is one of those the reconciler
  processes; and ticks exactly 30 seconds apart, the first at \<open>t\<close>.
\<close>

fun tick_time :: "tick \<Rightarrow> rat" where
  "tick_time (Poll now lnow data) = now"
| "tick_time (Cleanup now current_hour) = now"

fun finds_online :: "string \<Rightarrow> tick \<Rightarrow> bool" where
  "finds_online q (Poll now lnow (Some sd)) =
     (online sd \<and> distinct (map pe_name (sd_players sd))
      \<and> q \<in> current_player_names (sd_players sd))"
| "finds_online q (Poll now lnow None) = False"
| "finds_online q (Cleanup now current_hour) = False"

fun spaced_30 :: "rat \<Rightarrow> tick list \<Rightarrow> bool" where
  "spaced_30 t [] = True"
| "spaced_30 t (x # xs) = (tick_time x = t \<and> spaced_30 (t + 30) xs)"

text \<open>The running duration of the session of a name at a clock reading.\<close>

definition running_duration :: "string \<Rightarrow> rat \<Rightarrow> state \<Rightarrow> rat" where
  "running_duration q now st =
     (case map_of (session_start_times st) q of None \<Rightarrow> 0 | Some s \<Rightarrow> now - s)"

text \<open>
  What the statements ask of \<^verbatim>\<open>round(x, 1)\<close>: the result is a multiple of 0.1 within 0.05
  of the argument, which at a tie leaves either neighbour open.
\<close>

definition rounds_to_tenth :: "(rat \<Rightarrow> rat) \<Rightarrow> bool" where
  "rounds_to_tenth round1 \<longleftrightarrow>
     (\<forall>x. (\<exists>k::int. round1 x = of_int k / 10) \<and> \<bar>round1 x - x\<bar> \<le> 1 / 20)"

text \<open>The guard of \<^verbatim>\<open>get_players\<close> on the raw name of an entry.\<close>

definition excluded :: "(string \<Rightarrow> string) \<Rightarrow> (string \<Rightarrow> string) \<Rightarrow> string \<Rightarrow> bool" where
  "excluded str_strip str_lower r \<longleftrightarrow>
     (let pname = str_strip r
      in pname = [] \<or> str_lower pname \<in> set [''unknown'', [], ''null''])"

text \<open>A name the state holds nothing under.\<close>

definition never_seen :: "string \<Rightarrow> state \<Rightarrow> bool" where
  "never_seen q st \<longleftrightarrow>
     map_of (current_players st) q = None \<and> map_of (session_start_times st) q = None
     \<and> players st q = None \<and> events_of q st = []
     \<and> q \<notin> set (previous_players st) \<and> map_of (player_join_times st) q = None"

text \<open>
  The peak computation in the words of the specification: replay, in chronological order,
  all the events of the log that fall in the window, and fall back to the live count when
  there are none. It differs from \<open>calculate_peak_players\<close> in one place only: it reads the
  whole log, not the 1000 most recent events.
\<close>

definition replay_all_in_window :: "rat \<Rightarrow> int \<Rightarrow> state \<Rightarrow> nat" where
  "replay_all_in_window now days st =
     (let cutoff = now - of_int days * 86400;
          events = filter (\<lambda>e. ev_timestamp e \<ge> cutoff) (event_logs st)
      in if events = [] then length (current_players st)
         else replay (sort_key ev_timestamp events) {} 0)"

section \<open>Concrete inputs\<close>

text \<open>An online snapshot with an empty roster, an offline one, three roster entries as the
  fetcher hands them on, and the online snapshot with a given roster.\<close>

definition up :: server_data where
  "up = \<lparr>online = True, clients = 2, sd_ping = 40, sd_players = []\<rparr>"

definition down :: server_data where
  "down = \<lparr>online = False, clients = 0, sd_ping = 0, sd_players = []\<rparr>"

definition entry :: "string \<Rightarrow> int \<Rightarrow> player_entry" where
  "entry n p = \<lparr>pe_name = n, pe_ping = p, pe_identifiers = [],
                pe_job = ''civilian'', pe_role = ''civilian''\<rparr>"

definition ann :: player_entry where
  "ann = entry ''Ann'' 35"

definition bob :: player_entry where
  "bob = entry ''Bob'' 50"

definition cyd :: player_entry where
  "cyd = entry ''Cyd'' 0"

definition snapshot :: "player_entry list \<Rightarrow> server_data option" where
  "snapshot roster = Some (up\<lparr>sd_players := roster\<rparr>)"


text \<open>Three poll ticks 30 seconds apart with Ann online throughout; Bob is there on the
  first and on the third.\<close>

definition steady_run :: "tick list" where
  "steady_run =
     [Poll 0 0 (snapshot [ann, bob]), Poll 30 30 (snapshot [ann]),
      Poll 60 60 (snapshot [bob, ann])]"

text \<open>Six poll ticks 30 seconds apart with Ann online throughout; the status source is
  down on the fourth and the fifth.\<close>

definition gap_run :: "tick list" where
  "gap_run =
     [Poll 0 0 (snapshot [ann]), Poll 30 30 (snapshot [ann]), Poll 60 60 (snapshot [ann]),
      Poll 90 90 (Some down), Poll 120 120 (Some down), Poll 150 150 (snapshot [ann])]"

text \<open>One poll tick at time 0 with Ann and Bob online, and the entry it tracks for Ann.\<close>

definition ann_seen_at_0 :: tracked where
  "ann_seen_at_0 = \<lparr>last_update = 0, tr_ping = 35, tr_identifiers = [],
                    tr_job = ''civilian'', tr_role = ''civilian''\<rparr>"

definition one_tick :: "tick list" where
  "one_tick = [Poll 0 0 (snapshot [ann, bob])]"

text \<open>One poll tick with three players online.\<close>

definition three_online :: "tick list" where
  "three_online = [Poll 0 0 (snapshot [ann, bob, cyd])]"

text \<open>An online snapshot with three players, one of them reporting ping 0; a poll tick that
  finds the status source down, and one that finds the server up and empty.\<close>

definition three_up :: server_data where
  "three_up = \<lparr>online = True, clients = 3, sd_ping = 40,
               sd_players = [entry ''Ann'' 35, entry ''Bob'' 50, entry ''Cyd'' 0]\<rparr>"

definition failed_poll :: "tick list" where
  "failed_poll = [Poll 0 0 (Some down)]"

definition empty_poll :: "tick list" where
  "empty_poll = [Poll 0 0 (Some up)]"

text \<open>Three poll ticks with one player online, reporting ping 1, 1 and 2; and one poll tick
  on which both the server ping and the only player ping are 0.\<close>

definition ping_run :: "tick list" where
  "ping_run =
     [Poll 0 0 (snapshot [entry ''Ann'' 1]), Poll 30 30 (snapshot [entry ''Ann'' 1]),
      Poll 60 60 (snapshot [entry ''Ann'' 2])]"

definition zero_ping_run :: "tick list" where
  "zero_ping_run =
     [Poll 0 0 (Some \<lparr>online = True, clients = 1, sd_ping = 0,
                       sd_players = [entry ''Ann'' 0]\<rparr>)]"

text \<open>A function that rounds to a nearest multiple of 0.1, a tie going up. It stands for
  \<^verbatim>\<open>round(x, 1)\<close> in the examples, none of which rounds a tie.\<close>

definition nearest_tenth :: "rat \<Rightarrow> rat" where
  "nearest_tenth x = of_int \<lfloor>x * 10 + 1 / 2\<rfloor> / 10"

text \<open>
  What \<^verbatim>\<open>str.strip\<close> and \<^verbatim>\<open>str.lower\<close> do to a name made of ASCII characters only:
  the whitespace of \<^verbatim>\<open>str.isspace\<close> below 128 is stripped, the letters A to Z are
  lowered. The two functions stand for the parameters of the fetcher in the examples, whose
  names are all ASCII.
\<close>

definition ascii_space :: "char \<Rightarrow> bool" where
  "ascii_space c \<longleftrightarrow>
     c \<in> set [CHR 0x09, CHR 0x0A, CHR 0x0B, CHR 0x0C, CHR 0x0D,
               CHR 0x1C, CHR 0x1D, CHR 0x1E, CHR 0x1F, CHR 0x20]"

definition ascii_strip :: "string \<Rightarrow> string" where
  "ascii_strip s = rev (dropWhile ascii_space (rev (dropWhile ascii_space s)))"

definition ascii_lower_char :: "char \<Rightarrow> char" where
  "ascii_lower_char c =
     (case map_of (zip ''ABCDEFGHIJKLMNOPQRSTUVWXYZ'' ''abcdefghijklmnopqrstuvwxyz'') c of
        None \<Rightarrow> c
      | Some l \<Rightarrow> l)"

definition ascii_lower :: "string \<Rightarrow> string" where
  "ascii_lower s = map ascii_lower_char s"

text \<open>One poll tick whose raw roster holds the three sentinels and one player, and one with
  a sentinel in capitals and a name padded with blanks.\<close>

definition raw_named :: "string \<Rightarrow> raw_player" where
  "raw_named n = \<lparr>rp_name = n, rp_ping = 30, rp_identifiers = []\<rparr>"

definition sentinel_run :: "raw_tick list" where
  "sentinel_run =
     [RawPoll 0 0 (Some up)
        (Some [raw_named ''Unknown'', raw_named ''null'', raw_named [], raw_named ''Bob''])]"

definition capitals_run :: "raw_tick list" where
  "capitals_run = [RawPoll 0 0 (Some up) (Some [raw_named ''NULL'', raw_named '' Bob ''])]"

text \<open>
  A log of 1001 events, one second apart: Ann joins at 0 and stays, then Bob joins and
  leaves 500 times.
\<close>

fun hops :: "nat \<Rightarrow> nat \<Rightarrow> event list" where
  "hops t 0 = []"
| "hops t (Suc k) =
     join_event (of_nat t) (entry ''Bob'' 50)
       # leave_event (of_nat (Suc t)) ''Bob'' 1 None # hops (Suc (Suc t)) k"

definition busy_state :: state where
  "busy_state =
     init_state\<lparr>event_logs := join_event 0 (entry ''Ann'' 35) # hops 1 500,
                current_players := [(''Ann'', ann_seen_at_0)]\<rparr>"

text \<open>The four events of the example, ten seconds apart.\<close>

definition four_events_state :: state where
  "four_events_state =
     init_state\<lparr>event_logs :=
       [join_event 10 (entry ''A'' 30), join_event 20 (entry ''B'' 30),
        leave_event 30 ''A'' 20 None, join_event 40 (entry ''C'' 30)]\<rparr>"


section \<open>Increment semantics of the upsert\<close>

lemma playtime_of_upsert_player:
  "playtime_of n (upsert_player now pd st) =
     (if ua_name pd = n then playtime_of n st + ua_session_time pd else playtime_of n st)"
  by (simp add: playtime_of_def upsert_player_def split: option.splits)

text \<open>
  C4. Upserting the same name twice, with \<^verbatim>\<open>session_time\<close> 10 and then 20, adds 30 to the
  stored playtime: a name with no document before ends with playtime 30 (not 20), and a
  name with a document ends 30 above what it had.
\<close>

theorem upsert_player_twice_adds:
  assumes "ua_name a = n" and "ua_name b = n"
    and "ua_session_time a = 10" and "ua_session_time b = 20"
  shows "playtime_of n (upsert_player t2 b (upsert_player t1 a st)) = playtime_of n st + 30
    \<and> (players st n = None \<longrightarrow>
         map_option playtime (players (upsert_player t2 b (upsert_player t1 a st)) n) = Some 30)
    \<and> playtime_of n (upsert_player t2 b (upsert_player t1 a st)) \<noteq> playtime_of n st + 20"
  using assms
  by (simp add: playtime_of_upsert_player)
     (simp add: upsert_player_def)

theorem upsert_player_twice_adds_witness:
  "map_option playtime
     (players
        (upsert_player 5
           \<lparr>ua_name = ''Ann'', ua_identifiers = [], ua_ping = 40, ua_session_time = 20,
            ua_job = ''civilian'', ua_role = ''civilian''\<rparr>
           (upsert_player 2
              \<lparr>ua_name = ''Ann'', ua_identifiers = [], ua_ping = 35, ua_session_time = 10,
               ua_job = ''civilian'', ua_role = ''civilian''\<rparr>
              init_state)) ''Ann'') = Some 30"
  using upsert_player_twice_adds
    [of "\<lparr>ua_name = ''Ann'', ua_identifiers = [], ua_ping = 35, ua_session_time = 10,
          ua_job = ''civilian'', ua_role = ''civilian''\<rparr>" "''Ann''"
        "\<lparr>ua_name = ''Ann'', ua_identifiers = [], ua_ping = 40, ua_session_time = 20,
          ua_job = ''civilian'', ua_role = ''civilian''\<rparr>" 5 2 init_state]
  by (simp add: init_state_def)

section \<open>The operations on the view of one player\<close>

lemma view_upsert_player:
  "view q (upsert_player now pd st) =
     (if ua_name pd = q then v_upsert now pd (view q st) else view q st)"
  by (simp add: view_def upsert_player_def v_upsert_def)

lemma view_log_event:
  "view q (log_event now ty n d st) =
     (if n = q then v_log_event now ty n d (view q st) else view q st)"
  by (auto simp add: view_def log_event_def v_log_event_def increment_player_sessions_def Let_def
      split: option.splits)

lemma view_upd_fields [simp]:
  "view q (st\<lparr>session_start_times := s\<rparr>) = (view q st)\<lparr>v_started := map_of s q\<rparr>"
  "view q (st\<lparr>current_players := c\<rparr>) = (view q st)\<lparr>v_tracked := map_of c q\<rparr>"
  by (simp_all add: view_def)

lemma view_sel [simp]:
  "v_tracked (view q st) = map_of (current_players st) q"
  "v_started (view q st) = map_of (session_start_times st) q"
  "v_doc (view q st) = players st q"
  by (simp_all add: view_def)

lemma frame_log_event [simp]:
  "current_players (log_event now ty n d st) = current_players st"
  "session_start_times (log_event now ty n d st) = session_start_times st"
  by (simp_all add: log_event_def increment_player_sessions_def Let_def split: option.splits)

lemma frame_upsert_player [simp]:
  "current_players (upsert_player now pd st) = current_players st"
  "session_start_times (upsert_player now pd st) = session_start_times st"
  "event_logs (upsert_player now pd st) = event_logs st"
  by (simp_all add: upsert_player_def)

lemma view_process_player:
  "view q (process_player now p st) =
     (if pe_name p = q then v_process now p (view q st) else view q st)"
  by (simp add: process_player_def v_process_def Let_def view_upsert_player view_log_event
       AList.update_conv')

lemma v_log_event_sel [simp]:
  "v_tracked (v_log_event now ty n d v) = v_tracked v"
  "v_started (v_log_event now ty n d v) = v_started v"
  by (simp_all add: v_log_event_def)

lemma v_upsert_sel [simp]:
  "v_tracked (v_upsert now pd v) = v_tracked v"
  "v_started (v_upsert now pd v) = v_started v"
  "v_events (v_upsert now pd v) = v_events v"
  by (simp_all add: v_upsert_def)

lemma key_mem_map_of: "q \<in> fst ` set al \<longleftrightarrow> map_of al q \<noteq> None"
  by (simp add: map_of_eq_None_iff)

lemma view_leave_player:
  "view q (leave_player now n st) =
     (if n = q then v_leave now q (view q st) else view q st)"
  by (simp add: leave_player_def v_leave_def Let_def view_upsert_player view_log_event
       AList.delete_conv' split: option.splits)

lemma view_reap_player:
  "view q (reap_player now n st) =
     (if n = q then v_reap now q (view q st) else view q st)"
  by (simp add: reap_player_def v_reap_def Let_def view_log_event
       AList.delete_conv' split: option.splits)

lemma view_process_players:
  "view q (process_players now roster st) =
     foldl (\<lambda>v p. v_process now p v) (view q st) (filter (\<lambda>p. pe_name p = q) roster)"
  by (induction roster arbitrary: st) (simp_all add: view_process_player)

lemma v_leave_idem: "v_leave now q (v_leave now q v) = v_leave now q v"
  by (simp add: v_leave_def Let_def split: option.splits)

lemma v_reap_idem: "v_reap now q (v_reap now q v) = v_reap now q v"
  by (simp add: v_reap_def Let_def split: option.splits)

lemma view_leave_players:
  "view q (leave_players now ls st) =
     (if q \<in> set ls then v_leave now q (view q st) else view q st)"
  by (induction ls arbitrary: st) (simp_all add: view_leave_player v_leave_idem)

lemma view_reap_players:
  "view q (reap_players now ls st) =
     (if q \<in> set ls then v_reap now q (view q st) else view q st)"
  by (induction ls arbitrary: st) (simp_all add: view_reap_player v_reap_idem)

lemma view_update_player_data:
  "view q (update_player_data now roster st) =
     (let v1 = foldl (\<lambda>v p. v_process now p v) (view q st) (filter (\<lambda>p. pe_name p = q) roster)
      in if v_tracked v1 \<noteq> None \<and> q \<notin> current_player_names roster
         then v_leave now q v1 else v1)"
  by (simp add: update_player_data_def Let_def view_leave_players
        view_process_players [symmetric] key_mem_map_of)

section \<open>What each operation leaves alone\<close>

lemma frame_increment [simp]:
  "current_players (increment_player_sessions n st) = current_players st"
  "session_start_times (increment_player_sessions n st) = session_start_times st"
  "event_logs (increment_player_sessions n st) = event_logs st"
  "ping_logs (increment_player_sessions n st) = ping_logs st"
  "previous_players (increment_player_sessions n st) = previous_players st"
  "player_join_times (increment_player_sessions n st) = player_join_times st"
  by (simp_all add: increment_player_sessions_def split: option.splits)

lemma frame_log_event2 [simp]:
  "ping_logs (log_event now ty n d st) = ping_logs st"
  "previous_players (log_event now ty n d st) = previous_players st"
  "player_join_times (log_event now ty n d st) = player_join_times st"
  by (simp_all add: log_event_def Let_def)

lemma frame_upsert_player2 [simp]:
  "ping_logs (upsert_player now pd st) = ping_logs st"
  "previous_players (upsert_player now pd st) = previous_players st"
  "player_join_times (upsert_player now pd st) = player_join_times st"
  by (simp_all add: upsert_player_def)

lemma frame_handle_player_join [simp]:
  "current_players (handle_player_join now cpd n st) = current_players st"
  "session_start_times (handle_player_join now cpd n st) = session_start_times st"
  "ping_logs (handle_player_join now cpd n st) = ping_logs st"
  "previous_players (handle_player_join now cpd n st) = previous_players st"
  "player_join_times (handle_player_join now cpd n st) = player_join_times st"
  by (simp_all add: handle_player_join_def split: option.splits)

lemma frame_handle_player_leave [simp]:
  "current_players (handle_player_leave lnow now n st) = current_players st"
  "session_start_times (handle_player_leave lnow now n st) = session_start_times st"
  "ping_logs (handle_player_leave lnow now n st) = ping_logs st"
  "previous_players (handle_player_leave lnow now n st) = previous_players st"
  "player_join_times (handle_player_leave lnow now n st) = player_join_times st"
  by (simp_all add: handle_player_leave_def Let_def)

lemma frame_fold_join [simp]:
  "current_players (fold (handle_player_join now cpd) ns st) = current_players st"
  "session_start_times (fold (handle_player_join now cpd) ns st) = session_start_times st"
  "ping_logs (fold (handle_player_join now cpd) ns st) = ping_logs st"
  "previous_players (fold (handle_player_join now cpd) ns st) = previous_players st"
  "player_join_times (fold (handle_player_join now cpd) ns st) = player_join_times st"
  by (induction ns arbitrary: st; simp)+

lemma frame_fold_leave [simp]:
  "current_players (fold (handle_player_leave lnow now) ns st) = current_players st"
  "session_start_times (fold (handle_player_leave lnow now) ns st) = session_start_times st"
  "ping_logs (fold (handle_player_leave lnow now) ns st) = ping_logs st"
  "previous_players (fold (handle_player_leave lnow now) ns st) = previous_players st"
  "player_join_times (fold (handle_player_leave lnow now) ns st) = player_join_times st"
  by (induction ns arbitrary: st; simp)+

lemma frame_check_player_changes [simp]:
  "current_players (check_player_changes lnow now cpd st) = current_players st"
  "session_start_times (check_player_changes lnow now cpd st) = session_start_times st"
  "ping_logs (check_player_changes lnow now cpd st) = ping_logs st"
  by (simp_all add: check_player_changes_def Let_def)

lemma frame_log_ping_data [simp]:
  "current_players (log_ping_data now sp st) = current_players st"
  "session_start_times (log_ping_data now sp st) = session_start_times st"
  "event_logs (log_ping_data now sp st) = event_logs st"
  "players (log_ping_data now sp st) = players st"
  "previous_players (log_ping_data now sp st) = previous_players st"
  "player_join_times (log_ping_data now sp st) = player_join_times st"
  by (simp_all add: log_ping_data_def log_ping_data_db_def Let_def split: prod.splits)

lemma view_log_ping_data [simp]: "view q (log_ping_data now sp st) = view q st"
  by (simp add: view_def)

text \<open>The notification manager only appends events and raises session counters.\<close>

lemma doc_none_log_event [simp]:
  "players (log_event now ty n d st) q = None \<longleftrightarrow> players st q = None"
  by (simp add: log_event_def increment_player_sessions_def Let_def split: option.splits)

lemma doc_none_handle_join [simp]:
  "players (handle_player_join now cpd n st) q = None \<longleftrightarrow> players st q = None"
  by (simp add: handle_player_join_def split: option.splits)

lemma doc_none_handle_leave [simp]:
  "players (handle_player_leave lnow now n st) q = None \<longleftrightarrow> players st q = None"
  by (simp add: handle_player_leave_def Let_def)

lemma doc_none_fold_join [simp]:
  "players (fold (handle_player_join now cpd) ns st) q = None \<longleftrightarrow> players st q = None"
  by (induction ns arbitrary: st) simp_all

lemma doc_none_fold_leave [simp]:
  "players (fold (handle_player_leave lnow now) ns st) q = None \<longleftrightarrow> players st q = None"
  by (induction ns arbitrary: st) simp_all

lemma doc_none_check_player_changes [simp]:
  "players (check_player_changes lnow now cpd st) q = None \<longleftrightarrow> players st q = None"
  by (simp add: check_player_changes_def Let_def)

lemma consistent_check_player_changes:
  "consistent (view q (check_player_changes lnow now cpd st)) = consistent (view q st)"
  by (simp add: consistent_def)

section \<open>Tracked players have a session start and a document\<close>

lemma consistent_v_process: "consistent v \<Longrightarrow> consistent (v_process now p v)"
  by (simp add: consistent_def v_process_def Let_def v_upsert_def v_log_event_def)

lemma consistent_v_leave: "consistent (v_leave now q v)"
  by (simp add: consistent_def v_leave_def Let_def split: option.splits)

lemma consistent_v_reap: "consistent (v_reap now q v)"
  by (simp add: consistent_def v_reap_def Let_def split: option.splits)

lemma consistent_foldl_process:
  "consistent v \<Longrightarrow> consistent (foldl (\<lambda>v p. v_process now p v) v ps)"
  by (induction ps arbitrary: v) (simp_all add: consistent_v_process)

lemma consistent_update_player_data:
  "consistent (view q st) \<Longrightarrow> consistent (view q (update_player_data now roster st))"
  by (simp add: view_update_player_data Let_def consistent_v_leave consistent_foldl_process)

lemma consistent_clean_offline_players:
  "consistent (view q st) \<Longrightarrow> consistent (view q (clean_offline_players now st))"
  by (simp add: clean_offline_players_def Let_def view_reap_players consistent_v_reap)

lemma consistent_cleanup_old_data:
  "consistent (view q (cleanup_old_data now st)) = consistent (view q st)"
  by (simp add: consistent_def cleanup_old_data_def)

lemma consistent_frame:
  "consistent (view q (st\<lparr>server_status := a\<rparr>)) = consistent (view q st)"
  "consistent (view q (st\<lparr>players_data := b\<rparr>)) = consistent (view q st)"
  "consistent (view q (st\<lparr>last_server_online := c\<rparr>)) = consistent (view q st)"
  by (simp_all add: consistent_def)

lemma consistent_update_server_status:
  "consistent (view q st) \<Longrightarrow> consistent (view q (update_server_status now lnow data st))"
  by (simp add: update_server_status_def Let_def consistent_frame consistent_check_player_changes
        consistent_update_player_data)

lemma consistent_step: "consistent (view q st) \<Longrightarrow> consistent (view q (step t st))"
  by (cases t) (simp_all add: consistent_update_server_status cleanup_task_def Let_def
       consistent_cleanup_old_data consistent_clean_offline_players)

lemma consistent_run: "consistent (view q st) \<Longrightarrow> consistent (view q (run ts st))"
  by (induction ts arbitrary: st) (simp_all add: consistent_step)

lemma consistent_init: "consistent (view q init_state)"
  by (simp add: consistent_def init_state_def)

section \<open>One tick of the reconciler, for one player\<close>

lemma view_events [simp]: "v_events (view q st) = events_of q st"
  by (simp add: view_def events_of_def)

lemma v_playtime_view [simp]: "v_playtime (view q st) = playtime_of q st"
  by (simp add: v_playtime_def playtime_of_def)

lemma v_sessions_view [simp]: "v_sessions (view q st) = sessions_of q st"
  by (simp add: v_sessions_def sessions_of_def)



lemma foldl_process_skipped:
  "q = [] \<or> q = ''Unknown'' \<Longrightarrow>
   foldl (\<lambda>v p. v_process now p v) v (filter (\<lambda>p. pe_name p = q) roster) = v"
  by (induction roster arbitrary: v) (simp_all add: v_process_def)

lemma foldl_process_absent:
  assumes "q \<notin> current_player_names roster"
  shows "foldl (\<lambda>v p. v_process now p v) v (filter (\<lambda>p. pe_name p = q) roster) = v"
proof (cases "q = [] \<or> q = ''Unknown''")
  case True
  then show ?thesis by (rule foldl_process_skipped)
next
  case False
  with assms have "filter (\<lambda>p. pe_name p = q) roster = []"
    by (auto simp add: current_player_names_def filter_empty_conv)
  then show ?thesis by simp
qed

lemma v_process_tracked:
  assumes "v_tracked v \<noteq> None" "pe_name p \<noteq> []" "pe_name p \<noteq> ''Unknown''"
  shows "v_tracked (v_process now p v) \<noteq> None"
    and "v_started (v_process now p v) = v_started v"
    and "v_events (v_process now p v) = v_events v"
    and "v_playtime (v_process now p v) = v_playtime v + 30"
    and "v_sessions (v_process now p v) = v_sessions v"
    and "v_doc (v_process now p v) \<noteq> None"
proof -
  from assms(1) obtain tr where "v_tracked v = Some tr" by blast
  with assms(2,3) show "v_tracked (v_process now p v) \<noteq> None"
    and "v_started (v_process now p v) = v_started v"
    and "v_events (v_process now p v) = v_events v"
    and "v_playtime (v_process now p v) = v_playtime v + 30"
    and "v_sessions (v_process now p v) = v_sessions v"
    and "v_doc (v_process now p v) \<noteq> None"
    by (simp_all add: v_process_def Let_def v_upsert_def v_playtime_def v_sessions_def
        split: option.splits)
qed

lemma v_process_untracked:
  assumes "v_tracked v = None" "pe_name p \<noteq> []" "pe_name p \<noteq> ''Unknown''"
  shows "v_tracked (v_process now p v) \<noteq> None"
    and "v_started (v_process now p v) = Some now"
    and "v_events (v_process now p v) = v_events v @ [join_event now p]"
    and "v_playtime (v_process now p v) = v_playtime v"
    and "v_sessions (v_process now p v) = v_sessions v + (if v_doc v = None then 0 else 1)"
    and "v_doc (v_process now p v) \<noteq> None"
  using assms
  by (simp_all add: v_process_def Let_def v_upsert_def v_log_event_def v_playtime_def
        v_sessions_def join_event_def split: option.splits)

lemma foldl_process_tracked:
  assumes "v_tracked v \<noteq> None" "\<forall>p\<in>set ps. pe_name p = q" "q \<noteq> []" "q \<noteq> ''Unknown''"
  shows "v_tracked (foldl (\<lambda>v p. v_process now p v) v ps) \<noteq> None
       \<and> v_started (foldl (\<lambda>v p. v_process now p v) v ps) = v_started v
       \<and> v_events (foldl (\<lambda>v p. v_process now p v) v ps) = v_events v
       \<and> v_playtime (foldl (\<lambda>v p. v_process now p v) v ps) = v_playtime v + 30 * int (length ps)
       \<and> v_sessions (foldl (\<lambda>v p. v_process now p v) v ps) = v_sessions v"
  using assms
proof (induction ps arbitrary: v)
  case Nil
  then show ?case by simp
next
  case (Cons p ps)
  have p: "pe_name p \<noteq> []" "pe_name p \<noteq> ''Unknown''"
    using Cons.prems by auto
  note vp = v_process_tracked [OF Cons.prems(1) p, of now]
  have "\<forall>p\<in>set ps. pe_name p = q" using Cons.prems(2) by simp
  from Cons.IH [OF vp(1) this Cons.prems(3,4)] vp show ?case
    by simp
qed

text \<open>The entries of a roster that carry a name the loop accepts.\<close>

lemma present_entries:
  assumes "q \<in> current_player_names roster"
  shows "q \<noteq> []" "q \<noteq> ''Unknown''"
    and "\<exists>p ps. filter (\<lambda>p. pe_name p = q) roster = p # ps \<and> p \<in> set roster"
proof -
  show "q \<noteq> []" "q \<noteq> ''Unknown''"
    using assms by (auto simp: current_player_names_def)
  from assms obtain p where p: "p \<in> set roster" "pe_name p = q"
    by (auto simp: current_player_names_def)
  then have "filter (\<lambda>p. pe_name p = q) roster \<noteq> []"
    by (auto simp: filter_empty_conv)
  then obtain p' ps where e: "filter (\<lambda>p. pe_name p = q) roster = p' # ps"
    by (cases "filter (\<lambda>p. pe_name p = q) roster") auto
  then have "p' \<in> set (filter (\<lambda>p. pe_name p = q) roster)" by simp
  then have "p' \<in> set roster" by simp
  with e show "\<exists>p ps. filter (\<lambda>p. pe_name p = q) roster = p # ps \<and> p \<in> set roster"
    by blast
qed

text \<open>A tick on a player that is not tracked and is in the roster: a join.\<close>

lemma update_player_data_join:
  assumes "q \<in> current_player_names roster" "map_of (current_players st) q = None"
  shows "\<exists>p\<in>set roster. pe_name p = q \<and>
           events_of q (update_player_data now roster st) = events_of q st @ [join_event now p]"
    and "map_of (session_start_times (update_player_data now roster st)) q = Some now"
    and "map_of (current_players (update_player_data now roster st)) q \<noteq> None"
    and "sessions_of q (update_player_data now roster st) =
           sessions_of q st + (if players st q = None then 0 else 1)"
    and "playtime_of q (update_player_data now roster st) =
           playtime_of q st + 30 * (int (length (filter (\<lambda>p. pe_name p = q) roster)) - 1)"
proof -
  from present_entries [OF assms(1)] obtain p ps where
    q: "q \<noteq> []" "q \<noteq> ''Unknown''" and e: "filter (\<lambda>p. pe_name p = q) roster = p # ps"
    and pin: "p \<in> set roster"
    by blast
  have pq: "pe_name p = q" and psq: "\<forall>p\<in>set ps. pe_name p = q"
  proof -
    have "set (p # ps) = {x \<in> set roster. pe_name x = q}"
      using e [symmetric] by simp
    then show "pe_name p = q" and "\<forall>p\<in>set ps. pe_name p = q" by auto
  qed
  let ?v = "view q st"
  let ?v1 = "v_process now p ?v"
  have u: "v_tracked ?v = None" using assms(2) by simp
  have p': "pe_name p \<noteq> []" "pe_name p \<noteq> ''Unknown''" using pq q by simp_all
  note a = v_process_untracked [OF u p', of now]
  note b = foldl_process_tracked [OF a(1) psq q, of now]
  have v: "view q (update_player_data now roster st) = foldl (\<lambda>v p. v_process now p v) ?v1 ps"
    using assms(1) b by (simp add: view_update_player_data e Let_def)
  have "events_of q (update_player_data now roster st) = events_of q st @ [join_event now p]"
    using arg_cong [OF v, of v_events] a b by simp
  with pin pq show "\<exists>p\<in>set roster. pe_name p = q \<and>
           events_of q (update_player_data now roster st) = events_of q st @ [join_event now p]"
    by blast
  show "map_of (session_start_times (update_player_data now roster st)) q = Some now"
    using arg_cong [OF v, of v_started] a b by simp
  show "map_of (current_players (update_player_data now roster st)) q \<noteq> None"
    using arg_cong [OF v, of v_tracked] a b by simp
  show "sessions_of q (update_player_data now roster st) =
           sessions_of q st + (if players st q = None then 0 else 1)"
    using arg_cong [OF v, of v_sessions] a b by simp
  show "playtime_of q (update_player_data now roster st) =
           playtime_of q st + 30 * (int (length (filter (\<lambda>p. pe_name p = q) roster)) - 1)"
    using arg_cong [OF v, of v_playtime] a b by (simp add: e)
qed

text \<open>A tick on a tracked player that is in the roster: the session continues.\<close>

lemma update_player_data_continue:
  assumes "q \<in> current_player_names roster" "map_of (current_players st) q \<noteq> None"
  shows "events_of q (update_player_data now roster st) = events_of q st"
    and "map_of (session_start_times (update_player_data now roster st)) q =
           map_of (session_start_times st) q"
    and "map_of (current_players (update_player_data now roster st)) q \<noteq> None"
    and "sessions_of q (update_player_data now roster st) = sessions_of q st"
    and "playtime_of q (update_player_data now roster st) =
           playtime_of q st + 30 * int (length (filter (\<lambda>p. pe_name p = q) roster))"
proof -
  note q = present_entries(1,2) [OF assms(1)]
  have psq: "\<forall>p\<in>set (filter (\<lambda>p. pe_name p = q) roster). pe_name p = q" by simp
  have t: "v_tracked (view q st) \<noteq> None" using assms(2) by simp
  note b = foldl_process_tracked [OF t psq q, of now]
  have v: "view q (update_player_data now roster st) =
      foldl (\<lambda>v p. v_process now p v) (view q st) (filter (\<lambda>p. pe_name p = q) roster)"
    using assms(1) by (simp add: view_update_player_data Let_def)
  show "events_of q (update_player_data now roster st) = events_of q st"
    using arg_cong [OF v, of v_events] b by simp
  show "map_of (session_start_times (update_player_data now roster st)) q =
           map_of (session_start_times st) q"
    using arg_cong [OF v, of v_started] b by simp
  show "map_of (current_players (update_player_data now roster st)) q \<noteq> None"
    using arg_cong [OF v, of v_tracked] b by simp
  show "sessions_of q (update_player_data now roster st) = sessions_of q st"
    using arg_cong [OF v, of v_sessions] b by simp
  show "playtime_of q (update_player_data now roster st) =
           playtime_of q st + 30 * int (length (filter (\<lambda>p. pe_name p = q) roster))"
    using arg_cong [OF v, of v_playtime] b by simp
qed


text \<open>A tick on a player that is neither tracked nor in the roster changes nothing of theirs.\<close>

lemma update_player_data_absent:
  assumes "q \<notin> current_player_names roster" "map_of (current_players st) q = None"
  shows "view q (update_player_data now roster st) = view q st"
  using assms by (simp add: view_update_player_data Let_def foldl_process_absent)

section \<open>Leave and rejoin across three snapshots\<close>


lemma update_player_data_present:
  assumes "q \<in> current_player_names roster"
  shows "map_of (current_players (update_player_data now roster st)) q \<noteq> None"
  using update_player_data_join(3) [OF assms] update_player_data_continue(3) [OF assms]
  by (cases "map_of (current_players st) q = None") blast+




section \<open>Accrued playtime while a player stays online\<close>

lemma playtime_of_log_event [simp]:
  "playtime_of q (log_event now ty n d st) = playtime_of q st"
  by (simp add: playtime_of_def log_event_def increment_player_sessions_def Let_def
        split: option.splits)

lemma playtime_of_handle_player_join [simp]:
  "playtime_of q (handle_player_join now cpd n st) = playtime_of q st"
  by (simp add: handle_player_join_def split: option.splits)

lemma playtime_of_handle_player_leave [simp]:
  "playtime_of q (handle_player_leave lnow now n st) = playtime_of q st"
  by (simp add: handle_player_leave_def Let_def)

lemma playtime_of_fold_join [simp]:
  "playtime_of q (fold (handle_player_join now cpd) ns st) = playtime_of q st"
  by (induction ns arbitrary: st) simp_all

lemma playtime_of_fold_leave [simp]:
  "playtime_of q (fold (handle_player_leave lnow now) ns st) = playtime_of q st"
  by (induction ns arbitrary: st) simp_all

lemma playtime_of_fields [simp]:
  "playtime_of q (st\<lparr>previous_players := a\<rparr>) = playtime_of q st"
  "playtime_of q (st\<lparr>player_join_times := b\<rparr>) = playtime_of q st"
  "playtime_of q (st\<lparr>server_status := c\<rparr>) = playtime_of q st"
  "playtime_of q (st\<lparr>players_data := d\<rparr>) = playtime_of q st"
  "playtime_of q (st\<lparr>last_server_online := e\<rparr>) = playtime_of q st"
  by (simp_all add: playtime_of_def)

lemma playtime_of_check_player_changes [simp]:
  "playtime_of q (check_player_changes lnow now cpd st) = playtime_of q st"
  by (simp add: check_player_changes_def Let_def)

lemma playtime_of_log_ping_data [simp]:
  "playtime_of q (log_ping_data now sp st) = playtime_of q st"
  by (simp add: playtime_of_def)

text \<open>A reconciled poll tick, as far as one player's tracking and playtime go.\<close>

lemma step_finds_online:
  assumes "finds_online q x"
  shows "\<exists>roster st0. q \<in> current_player_names roster \<and> distinct (map pe_name roster)
           \<and> current_players st0 = current_players st
           \<and> session_start_times st0 = session_start_times st
           \<and> playtime_of q st0 = playtime_of q st
           \<and> current_players (step x st) = current_players (update_player_data (tick_time x) roster st0)
           \<and> session_start_times (step x st)
               = session_start_times (update_player_data (tick_time x) roster st0)
           \<and> playtime_of q (step x st) = playtime_of q (update_player_data (tick_time x) roster st0)"
proof -
  obtain now lnow sd where x: "x = Poll now lnow (Some sd)"
  proof (cases x)
    case (Poll now lnow data)
    with assms obtain sd where "data = Some sd" by (cases data) simp_all
    with Poll that show ?thesis by simp
  next
    case (Cleanup now h)
    with assms show ?thesis by simp
  qed
  from assms x have o: "online sd" and d: "distinct (map pe_name (sd_players sd))"
    and q: "q \<in> current_player_names (sd_players sd)"
    by simp_all
  from q have ne: "sd_players sd \<noteq> []"
    by (auto simp add: current_player_names_def)
  let ?st0 = "st\<lparr>server_status := sd, players_data := sd_players sd\<rparr>"
  have "current_players (step x st) = current_players (update_player_data now (sd_players sd) ?st0)"
    and "session_start_times (step x st)
           = session_start_times (update_player_data now (sd_players sd) ?st0)"
    and "playtime_of q (step x st) = playtime_of q (update_player_data now (sd_players sd) ?st0)"
    using o ne by (simp_all add: x update_server_status_def Let_def)
  moreover have "current_players ?st0 = current_players st"
    "session_start_times ?st0 = session_start_times st" "playtime_of q ?st0 = playtime_of q st"
    by simp_all
  ultimately show ?thesis
    using q d x by (intro exI [of _ "sd_players sd"] exI [of _ ?st0]) simp
qed

lemma filter_name_distinct:
  "distinct (map f xs) \<Longrightarrow> length (filter (\<lambda>x. f x = q) xs) \<le> 1"
proof (induction xs)
  case Nil
  then show ?case by simp
next
  case (Cons a xs)
  show ?case
  proof (cases "f a = q")
    case True
    with Cons.prems have "q \<notin> f ` set xs" by auto
    then have "filter (\<lambda>x. f x = q) xs = []"
      by (auto simp add: filter_empty_conv)
    with True show ?thesis by simp
  next
    case False
    with Cons show ?thesis by simp
  qed
qed

lemma one_entry:
  assumes "q \<in> current_player_names roster" "distinct (map pe_name roster)"
  shows "length (filter (\<lambda>p. pe_name p = q) roster) = 1"
  using present_entries(3) [OF assms(1)] filter_name_distinct [OF assms(2), of q]
  by (cases "filter (\<lambda>p. pe_name p = q) roster") auto

lemma step_join:
  assumes "finds_online q x" "map_of (current_players st) q = None"
  shows "map_of (session_start_times (step x st)) q = Some (tick_time x)"
    and "map_of (current_players (step x st)) q \<noteq> None"
    and "playtime_of q (step x st) = playtime_of q st"
proof -
  from step_finds_online [OF assms(1), of st] obtain roster st0 where
    r: "q \<in> current_player_names roster" "distinct (map pe_name roster)"
    and f: "current_players st0 = current_players st" "playtime_of q st0 = playtime_of q st"
    and s: "current_players (step x st) = current_players (update_player_data (tick_time x) roster st0)"
      "session_start_times (step x st)
               = session_start_times (update_player_data (tick_time x) roster st0)"
      "playtime_of q (step x st) = playtime_of q (update_player_data (tick_time x) roster st0)"
    by blast
  have u: "map_of (current_players st0) q = None" using assms(2) f by simp
  note j = update_player_data_join [OF r(1) u, of "tick_time x"]
  show "map_of (session_start_times (step x st)) q = Some (tick_time x)"
    unfolding s by (rule j(2))
  show "map_of (current_players (step x st)) q \<noteq> None"
    unfolding s by (rule j(3))
  show "playtime_of q (step x st) = playtime_of q st"
    unfolding s j(5) one_entry [OF r] f by simp
qed

lemma step_continue:
  assumes "finds_online q x" "map_of (current_players st) q \<noteq> None"
  shows "map_of (session_start_times (step x st)) q = map_of (session_start_times st) q"
    and "map_of (current_players (step x st)) q \<noteq> None"
    and "playtime_of q (step x st) = playtime_of q st + 30"
proof -
  from step_finds_online [OF assms(1), of st] obtain roster st0 where
    r: "q \<in> current_player_names roster" "distinct (map pe_name roster)"
    and f: "current_players st0 = current_players st" "playtime_of q st0 = playtime_of q st"
      "session_start_times st0 = session_start_times st"
    and s: "current_players (step x st) = current_players (update_player_data (tick_time x) roster st0)"
      "session_start_times (step x st)
               = session_start_times (update_player_data (tick_time x) roster st0)"
      "playtime_of q (step x st) = playtime_of q (update_player_data (tick_time x) roster st0)"
    by blast
  have u: "map_of (current_players st0) q \<noteq> None" using assms(2) f by simp
  note c = update_player_data_continue [OF r(1) u, of "tick_time x"]
  show "map_of (session_start_times (step x st)) q = map_of (session_start_times st) q"
    unfolding s c(2) f by (rule refl)
  show "map_of (current_players (step x st)) q \<noteq> None"
    unfolding s by (rule c(3))
  show "playtime_of q (step x st) = playtime_of q st + 30"
    unfolding s c(5) one_entry [OF r] f by simp
qed

lemma run_continue:
  assumes "list_all (finds_online q) ps" "map_of (current_players st) q \<noteq> None"
  shows "map_of (session_start_times (run ps st)) q = map_of (session_start_times st) q
       \<and> map_of (current_players (run ps st)) q \<noteq> None
       \<and> playtime_of q (run ps st) = playtime_of q st + 30 * int (length ps)"
  using assms
proof (induction ps arbitrary: st)
  case Nil
  then show ?case by simp
next
  case (Cons x ps)
  from Cons.prems have x: "finds_online q x" and ps: "list_all (finds_online q) ps"
    by simp_all
  note c = step_continue [OF x Cons.prems(2)]
  from Cons.IH [OF ps c(2)] c(1,3) show ?case by simp
qed

lemma spaced_30_last:
  "spaced_30 t ps \<Longrightarrow> ps \<noteq> [] \<Longrightarrow>
   tick_time (hd ps) = t \<and> tick_time (last ps) = t + 30 * (of_nat (length ps) - 1)"
proof (induction ps arbitrary: t)
  case Nil
  then show ?case by simp
next
  case (Cons x ps)
  show ?case
  proof (cases "ps = []")
    case True
    with Cons.prems show ?thesis by simp
  next
    case False
    from Cons.prems have "spaced_30 (t + 30) ps" by simp
    from Cons.IH [OF this False] Cons.prems False show ?thesis
      by (simp add: algebra_simps)
  qed
qed

text \<open>
  C1 (as amended). Take any player and any stretch of poll ticks that starts with the
  player untracked and on each of which the snapshot is online and lists the player, all
  names being unique. The tick on which the player joins sets the session start to its
  clock reading and accrues nothing to the player's record, and each later tick accrues 30
  seconds, whatever the time between the ticks. So when the ticks are exactly 30 seconds
  apart, the playtime accrued since the join equals the running duration of the session,
  which is the wall-clock time since that join.
\<close>

theorem online_stretch_playtime:
  assumes "list_all (finds_online q) ps" and "ps \<noteq> []"
    and "map_of (current_players st) q = None"
  shows "map_of (session_start_times (run ps st)) q = Some (tick_time (hd ps))
       \<and> playtime_of q (run [hd ps] st) = playtime_of q st
       \<and> playtime_of q (run ps st) = playtime_of q st + 30 * (int (length ps) - 1)
       \<and> (spaced_30 t ps \<longrightarrow>
            running_duration q (tick_time (last ps)) (run ps st) = tick_time (last ps) - t
          \<and> rat_of_int (playtime_of q (run ps st) - playtime_of q st)
              = running_duration q (tick_time (last ps)) (run ps st))"
proof -
  from assms(2) obtain x xs where ps: "ps = x # xs" by (cases ps) auto
  from assms(1) ps have x: "finds_online q x" and xs: "list_all (finds_online q) xs"
    by simp_all
  note j = step_join [OF x assms(3)]
  note c = run_continue [OF xs j(2)]
  have s: "map_of (session_start_times (run ps st)) q = Some (tick_time (hd ps))"
    using c j(1) by (simp add: ps)
  have p0: "playtime_of q (run [hd ps] st) = playtime_of q st"
    using j(3) by (simp add: ps)
  have p: "playtime_of q (run ps st) = playtime_of q st + 30 * (int (length ps) - 1)"
    using c j(3) by (simp add: ps)
  have "running_duration q (tick_time (last ps)) (run ps st) = tick_time (last ps) - t
          \<and> rat_of_int (playtime_of q (run ps st) - playtime_of q st)
              = running_duration q (tick_time (last ps)) (run ps st)"
    if "spaced_30 t ps"
  proof -
    from spaced_30_last [OF that assms(2)]
    have h: "tick_time (hd ps) = t" and l: "tick_time (last ps) = t + 30 * (of_nat (length ps) - 1)"
      by simp_all
    have r: "running_duration q (tick_time (last ps)) (run ps st) = tick_time (last ps) - t"
      by (simp add: running_duration_def s h)
    have "rat_of_int (playtime_of q (run ps st) - playtime_of q st)
        = 30 * (of_nat (length ps) - 1)"
      unfolding p by simp
    with r l show ?thesis by simp
  qed
  with s p0 p show ?thesis by blast
qed

theorem online_stretch_playtime_witness:
  "map_of (session_start_times (run steady_run init_state)) ''Ann'' = Some 0
   \<and> playtime_of ''Ann'' (run [hd steady_run] init_state) = 0
   \<and> playtime_of ''Ann'' (run steady_run init_state) = 60
   \<and> running_duration ''Ann'' 60 (run steady_run init_state) = 60 - 0
   \<and> rat_of_int (playtime_of ''Ann'' (run steady_run init_state) - 0)
       = running_duration ''Ann'' 60 (run steady_run init_state)"
proof -
  have a: "list_all (finds_online ''Ann'') steady_run" "steady_run \<noteq> []"
    "spaced_30 0 steady_run"
    by code_simp+
  have b: "map_of (current_players init_state) ''Ann'' = None" "playtime_of ''Ann'' init_state = 0"
    by (simp_all add: init_state_def playtime_of_def)
  have c: "tick_time (hd steady_run) = 0" "tick_time (last steady_run) = 60"
    "int (length steady_run) = 3"
    by code_simp+
  from online_stretch_playtime [OF a(1,2) b(1), of 0] a(3) show ?thesis
    unfolding b c by simp
qed

text \<open>
  The claim as stated fails on \<open>gap_run\<close>: a poll tick whose snapshot is offline is not
  handed to the reconciler, so after 150 seconds of one unbroken session, joined at 0, the
  record holds 90 seconds. Accrued playtime plus running duration is 240, accrued playtime
  alone is 90; neither is within 30 seconds of the 150 seconds since the first join.
\<close>

theorem wall_clock_counterexample:
  "map event_summary (events_of ''Ann'' (run gap_run init_state))
     = [(0, ''join'', None), (0, ''join'', None)]
   \<and> playtime_of ''Ann'' (run gap_run init_state) = 90
   \<and> running_duration ''Ann'' 150 (run gap_run init_state) = 150
   \<and> \<not> \<bar>of_int (playtime_of ''Ann'' (run gap_run init_state))
          + running_duration ''Ann'' 150 (run gap_run init_state) - (150 - 0)\<bar> \<le> 30
   \<and> \<not> \<bar>rat_of_int (playtime_of ''Ann'' (run gap_run init_state)) - (150 - 0)\<bar> \<le> 30"
proof -
  have e: "map event_summary (events_of ''Ann'' (run gap_run init_state))
     = [(0, ''join'', None), (0, ''join'', None)]"
    by code_simp
  have p: "playtime_of ''Ann'' (run gap_run init_state) = 90"
    by code_simp
  have r: "running_duration ''Ann'' 150 (run gap_run init_state) = 150"
    by code_simp
  show ?thesis
    unfolding e p r by simp
qed

section \<open>What the reconciler and the reaper leave alone\<close>

lemma frame_process_player [simp]:
  "ping_logs (process_player now p st) = ping_logs st"
  "previous_players (process_player now p st) = previous_players st"
  "player_join_times (process_player now p st) = player_join_times st"
  by (simp_all add: process_player_def Let_def)

lemma frame_process_players [simp]:
  "ping_logs (process_players now ps st) = ping_logs st"
  "previous_players (process_players now ps st) = previous_players st"
  "player_join_times (process_players now ps st) = player_join_times st"
  by (induction ps arbitrary: st; simp)+

lemma frame_leave_player [simp]:
  "ping_logs (leave_player now n st) = ping_logs st"
  "previous_players (leave_player now n st) = previous_players st"
  "player_join_times (leave_player now n st) = player_join_times st"
  by (simp_all add: leave_player_def Let_def split: option.splits)

lemma frame_leave_players [simp]:
  "ping_logs (leave_players now ns st) = ping_logs st"
  "previous_players (leave_players now ns st) = previous_players st"
  "player_join_times (leave_players now ns st) = player_join_times st"
  by (induction ns arbitrary: st; simp)+

lemma frame_update_player_data [simp]:
  "ping_logs (update_player_data now roster st) = ping_logs st"
  "previous_players (update_player_data now roster st) = previous_players st"
  "player_join_times (update_player_data now roster st) = player_join_times st"
  by (simp_all add: update_player_data_def Let_def)

lemma frame_reap_player [simp]:
  "ping_logs (reap_player now n st) = ping_logs st"
  "previous_players (reap_player now n st) = previous_players st"
  "player_join_times (reap_player now n st) = player_join_times st"
  "players (reap_player now n st) = players st"
  by (simp_all add: reap_player_def Let_def log_event_def split: option.splits)

lemma frame_reap_players [simp]:
  "ping_logs (reap_players now ns st) = ping_logs st"
  "previous_players (reap_players now ns st) = previous_players st"
  "player_join_times (reap_players now ns st) = player_join_times st"
  "players (reap_players now ns st) = players st"
  by (induction ns arbitrary: st; simp)+

section \<open>The keys of the tracking dictionary are unique\<close>

lemma distinct_process_player:
  "distinct (map fst (current_players st)) \<Longrightarrow>
   distinct (map fst (current_players (process_player now p st)))"
  by (simp add: process_player_def Let_def AList.distinct_update)

lemma distinct_process_players:
  "distinct (map fst (current_players st)) \<Longrightarrow>
   distinct (map fst (current_players (process_players now ps st)))"
  by (induction ps arbitrary: st) (simp_all add: distinct_process_player)

lemma distinct_leave_player:
  "distinct (map fst (current_players st)) \<Longrightarrow>
   distinct (map fst (current_players (leave_player now n st)))"
  by (simp add: leave_player_def Let_def AList.distinct_delete split: option.splits)

lemma distinct_leave_players:
  "distinct (map fst (current_players st)) \<Longrightarrow>
   distinct (map fst (current_players (leave_players now ns st)))"
  by (induction ns arbitrary: st) (simp_all add: distinct_leave_player)

lemma distinct_reap_player:
  "distinct (map fst (current_players st)) \<Longrightarrow>
   distinct (map fst (current_players (reap_player now n st)))"
  by (simp add: reap_player_def Let_def AList.distinct_delete split: option.splits)

lemma distinct_reap_players:
  "distinct (map fst (current_players st)) \<Longrightarrow>
   distinct (map fst (current_players (reap_players now ns st)))"
  by (induction ns arbitrary: st) (simp_all add: distinct_reap_player)

lemma distinct_update_player_data:
  "distinct (map fst (current_players st)) \<Longrightarrow>
   distinct (map fst (current_players (update_player_data now roster st)))"
  by (simp add: update_player_data_def Let_def distinct_leave_players distinct_process_players)

lemma distinct_step:
  "distinct (map fst (current_players st)) \<Longrightarrow>
   distinct (map fst (current_players (step t st)))"
  by (cases t)
     (simp_all add: update_server_status_def Let_def distinct_update_player_data
        cleanup_task_def cleanup_old_data_def clean_offline_players_def distinct_reap_players)

lemma distinct_run:
  "distinct (map fst (current_players st)) \<Longrightarrow>
   distinct (map fst (current_players (run ts st)))"
  by (induction ts arbitrary: st) (simp_all add: distinct_step)

lemma distinct_run_init: "distinct (map fst (current_players (run ts init_state)))"
  by (rule distinct_run) (simp add: init_state_def)

section \<open>One run of the reaper, for one player\<close>

lemma view_clean_offline_players:
  "view q (clean_offline_players now st) =
     (if q \<in> set (map fst (filter (\<lambda>(n, d). now - last_update d > offline_threshold) (current_players st)))
      then v_reap now q (view q st) else view q st)"
  by (simp add: clean_offline_players_def Let_def view_reap_players) 

lemma clean_offline_players_stale:
  assumes "map_of (current_players st) q = Some d" "now - last_update d > offline_threshold"
    and "map_of (session_start_times st) q = Some s"
  shows "map_of (current_players (clean_offline_players now st)) q = None"
    and "map_of (session_start_times (clean_offline_players now st)) q = None"
    and "events_of q (clean_offline_players now st) =
           events_of q st @ [leave_event now q (now - s) (Some ''timeout'')]"
proof -
  have "(q, d) \<in> set (current_players st)"
    using assms(1) by (rule map_of_SomeD)
  with assms(2) have "q \<in> set (map fst (filter (\<lambda>(n, d). now - last_update d > offline_threshold) (current_players st)))"
    by force
  then have v: "view q (clean_offline_players now st) = v_reap now q (view q st)"
    by (simp add: view_clean_offline_players)
  show "map_of (current_players (clean_offline_players now st)) q = None"
    using arg_cong [OF v, of v_tracked] by (simp add: v_reap_def Let_def)
  show "map_of (session_start_times (clean_offline_players now st)) q = None"
    using arg_cong [OF v, of v_started] assms(3) by (simp add: v_reap_def Let_def)
  show "events_of q (clean_offline_players now st) =
           events_of q st @ [leave_event now q (now - s) (Some ''timeout'')]"
    using arg_cong [OF v, of v_events] assms(3)
    by (simp add: v_reap_def Let_def v_log_event_def leave_event_def)
qed

lemma clean_offline_players_fresh:
  assumes "distinct (map fst (current_players st))"
    and "map_of (current_players st) q = Some d" "now - last_update d \<le> offline_threshold"
  shows "view q (clean_offline_players now st) = view q st"
proof -
  have "q \<notin> set (map fst (filter (\<lambda>(n, d). now - last_update d > offline_threshold) (current_players st)))"
  proof
    assume "q \<in> set (map fst (filter (\<lambda>(n, d). now - last_update d > offline_threshold) (current_players st)))"
    then obtain d' where d': "(q, d') \<in> set (current_players st)"
      and st: "now - last_update d' > offline_threshold"
      by auto
    from assms(1) d' have "map_of (current_players st) q = Some d'" by simp
    with assms(2) have "d' = d" by simp
    with st assms(3) show False by simp
  qed
  then show ?thesis by (simp add: view_clean_offline_players)
qed

lemma clean_offline_players_none_stale:
  assumes "\<forall>(n, d)\<in>set (current_players st). now - last_update d \<le> offline_threshold"
  shows "clean_offline_players now st = st"
proof -
  have "filter (\<lambda>(n, d). now - last_update d > offline_threshold) (current_players st) = []"
    using assms by (auto simp add: filter_empty_conv)
  then show ?thesis by (simp add: clean_offline_players_def)
qed

text \<open>
  C7. In every state the bot reaches, for a tracked player and a reaper run at any time
  \<open>now\<close>: if the player was last seen within the threshold of two minutes, the run keeps
  the player's tracked entry and session start and logs nothing for the player; if the
  player has been unseen for longer, however long, the run removes the player from
  tracking and logs exactly one event for the player, a leave with reason \<^verbatim>\<open>timeout\<close> and
  \<^verbatim>\<open>session_duration = now - session start\<close>.
\<close>

theorem reaper_fires_exactly_when_stale:
  assumes "map_of (current_players (run ts init_state)) q = Some d"
  shows "(now - last_update d \<le> 2 * 60 \<longrightarrow>
            map_of (current_players (clean_offline_players now (run ts init_state))) q = Some d
          \<and> map_of (session_start_times (clean_offline_players now (run ts init_state))) q
              = map_of (session_start_times (run ts init_state)) q
          \<and> events_of q (clean_offline_players now (run ts init_state))
              = events_of q (run ts init_state))
       \<and> (now - last_update d > 2 * 60 \<longrightarrow>
            map_of (current_players (clean_offline_players now (run ts init_state))) q = None
          \<and> (\<exists>s. map_of (session_start_times (run ts init_state)) q = Some s
                \<and> events_of q (clean_offline_players now (run ts init_state))
                    = events_of q (run ts init_state)
                      @ [leave_event now q (now - s) (Some ''timeout'')]))"
proof (intro conjI impI)
  let ?st = "run ts init_state"
  assume fresh: "now - last_update d \<le> 2 * 60"
  then have "now - last_update d \<le> offline_threshold" by (simp add: offline_threshold_def)
  from clean_offline_players_fresh [OF distinct_run_init assms this]
  have v: "view q (clean_offline_players now ?st) = view q ?st" .
  show "map_of (current_players (clean_offline_players now ?st)) q = Some d"
    using arg_cong [OF v, of v_tracked] assms by simp
  show "map_of (session_start_times (clean_offline_players now ?st)) q
              = map_of (session_start_times ?st) q"
    using arg_cong [OF v, of v_started] by simp
  show "events_of q (clean_offline_players now ?st) = events_of q ?st"
    using arg_cong [OF v, of v_events] by simp
next
  let ?st = "run ts init_state"
  assume "now - last_update d > 2 * 60"
  then have stale: "now - last_update d > offline_threshold" by (simp add: offline_threshold_def)
  have "consistent (view q ?st)"
    by (intro consistent_run consistent_init)
  with assms obtain s where s: "map_of (session_start_times ?st) q = Some s"
    by (auto simp add: consistent_def)
  note r = clean_offline_players_stale [OF assms stale s]
  show "map_of (current_players (clean_offline_players now ?st)) q = None" by (rule r(1))
  show "\<exists>s. map_of (session_start_times ?st) q = Some s
                \<and> events_of q (clean_offline_players now ?st)
                    = events_of q ?st @ [leave_event now q (now - s) (Some ''timeout'')]"
    using s r(3) by blast
qed

theorem reaper_fires_exactly_when_stale_witness:
  "map_of (current_players (run one_tick init_state)) ''Ann'' = Some ann_seen_at_0
   \<and> map_of (current_players (clean_offline_players 120 (run one_tick init_state))) ''Ann''
       = Some ann_seen_at_0
   \<and> events_of ''Ann'' (clean_offline_players 120 (run one_tick init_state))
       = events_of ''Ann'' (run one_tick init_state)
   \<and> map_of (current_players (clean_offline_players 7200 (run one_tick init_state))) ''Ann'' = None
   \<and> (\<exists>s. map_of (session_start_times (run one_tick init_state)) ''Ann'' = Some s
         \<and> events_of ''Ann'' (clean_offline_players 7200 (run one_tick init_state))
             = events_of ''Ann'' (run one_tick init_state)
               @ [leave_event 7200 ''Ann'' (7200 - s) (Some ''timeout'')])"
proof -
  have a: "map_of (current_players (run one_tick init_state)) ''Ann'' = Some ann_seen_at_0"
    by code_simp
  show ?thesis
    using reaper_fires_exactly_when_stale [OF a, of 120]
          reaper_fires_exactly_when_stale [OF a, of 7200] a
    by (simp add: ann_seen_at_0_def)
qed

section \<open>The tracked names after a reconciliation\<close>

lemma tracked_after_update_player_data:
  "map_of (current_players (update_player_data now roster st)) q \<noteq> None
     \<longleftrightarrow> q \<in> current_player_names roster"
proof (cases "q \<in> current_player_names roster")
  case True
  then show ?thesis by (simp add: update_player_data_present)
next
  case False
  have "v_tracked (view q (update_player_data now roster st)) = None"
    using False
    by (simp add: view_update_player_data Let_def foldl_process_absent v_leave_def
          split: option.splits)
  with False show ?thesis by simp
qed

lemma keys_after_update_player_data:
  "set (map fst (current_players (update_player_data now roster st)))
     = current_player_names roster"
proof (rule set_eqI)
  fix q
  let ?al = "current_players (update_player_data now roster st)"
  have "q \<in> set (map fst ?al) \<longleftrightarrow> map_of ?al q \<noteq> None"
    using key_mem_map_of [of q ?al] by simp
  then show "q \<in> set (map fst ?al) \<longleftrightarrow> q \<in> current_player_names roster"
    using tracked_after_update_player_data [of now roster st q] by simp
qed

section \<open>Poll ticks that are not reconciled\<close>

lemma update_server_status_offline:
  assumes "\<forall>sd. data = Some sd \<longrightarrow> \<not> online sd"
  shows "update_server_status now lnow data st =
           st\<lparr>server_status := (server_status st)\<lparr>online := False, clients := 0, sd_ping := 0\<rparr>,
              players_data := [], last_server_online := False\<rparr>"
  using assms by (cases data) (simp_all add: update_server_status_def)


text \<open>
  C3. A poll tick whose snapshot is missing or has \<^verbatim>\<open>online == false\<close> leaves both tracking
  dictionaries and the event log as they were; and a reaper run that follows while every
  tracked player was last seen within the two-minute threshold removes nobody and logs
  nothing.
\<close>

theorem offline_tick_keeps_tracked_presence:
  assumes "\<forall>sd. data = Some sd \<longrightarrow> \<not> online sd"
  shows "current_players (update_server_status now lnow data st) = current_players st
       \<and> session_start_times (update_server_status now lnow data st) = session_start_times st
       \<and> event_logs (update_server_status now lnow data st) = event_logs st
       \<and> ((\<forall>(n, d)\<in>set (current_players st). now' - last_update d \<le> 2 * 60) \<longrightarrow>
             current_players (clean_offline_players now' (update_server_status now lnow data st))
               = current_players st
           \<and> event_logs (clean_offline_players now' (update_server_status now lnow data st))
               = event_logs st)"
proof -
  let ?st' = "update_server_status now lnow data st"
  have f: "current_players ?st' = current_players st"
    "session_start_times ?st' = session_start_times st"
    "event_logs ?st' = event_logs st"
    by (simp_all add: update_server_status_offline [OF assms])
  have "clean_offline_players now' ?st' = ?st'"
    if "\<forall>(n, d)\<in>set (current_players st). now' - last_update d \<le> 2 * 60"
    using that by (intro clean_offline_players_none_stale) (simp add: f offline_threshold_def)
  with f show ?thesis by simp
qed

theorem offline_tick_keeps_tracked_presence_witness:
  "length (current_players (run three_online init_state)) = 3
   \<and> length (current_players (update_server_status 30 30 (Some down) (run three_online init_state))) = 3
   \<and> event_logs (update_server_status 30 30 (Some down) (run three_online init_state))
       = event_logs (run three_online init_state)
   \<and> length (current_players (clean_offline_players 120
        (update_server_status 30 30 (Some down) (run three_online init_state)))) = 3
   \<and> length (current_players (clean_offline_players 121
        (update_server_status 30 30 (Some down) (run three_online init_state)))) = 0"
proof -
  have a: "length (current_players (run three_online init_state)) = 3"
    by code_simp
  have b: "\<forall>(n, d)\<in>set (current_players (run three_online init_state)). 120 - last_update d \<le> 2 * 60"
    by code_simp
  have c: "length (current_players (clean_offline_players 121
        (update_server_status 30 30 (Some down) (run three_online init_state)))) = 0"
    by code_simp
  have d: "\<forall>sd. Some down = Some sd \<longrightarrow> \<not> online sd"
    by (simp add: down_def)
  show ?thesis
    using offline_tick_keeps_tracked_presence [OF d, of 30 30 "run three_online init_state" 120] a b c
    by simp
qed




section \<open>The ping sample of a poll tick\<close>

lemma ping_logs_log_ping_data:
  "ping_logs (log_ping_data now sp st) = ping_logs st @
     [let pings = filter (\<lambda>p. 0 < p) (map (\<lambda>(n, d). tr_ping d) (current_players st))
      in if pings = []
         then \<lparr>ps_timestamp = now, low = sp, avg = sp, high = sp, server_ping = sp\<rparr>
         else \<lparr>ps_timestamp = now, low = of_int (Min (set pings)),
               avg = of_int (sum_list pings) / of_nat (length pings),
               high = of_int (Max (set pings)), server_ping = sp\<rparr>]"
  by (simp add: log_ping_data_def log_ping_data_db_def Let_def)

lemma server_status_update_player_data [simp]:
  "server_status (update_player_data now roster st) = server_status st"
proof -
  have a: "server_status (process_player now p st) = server_status st" for p st
    by (simp add: process_player_def Let_def upsert_player_def log_event_def
          increment_player_sessions_def split: option.splits)
  have b: "server_status (process_players now ps st) = server_status st" for ps st
    by (induction ps arbitrary: st) (simp_all add: a)
  have c: "server_status (leave_player now n st) = server_status st" for n st
    by (simp add: leave_player_def Let_def upsert_player_def log_event_def split: option.splits)
  have d: "server_status (leave_players now ns st) = server_status st" for ns st
    by (induction ns arbitrary: st) (simp_all add: c)
  show ?thesis by (simp add: update_player_data_def Let_def b d)
qed

text \<open>
  C6 (as amended). A poll tick appends a ping sample exactly when its snapshot is online
  with a non-empty roster, and then exactly one: the players tracked after that tick's
  reconciliation are those of the roster, and low, avg and high are the minimum, the mean
  and the maximum of their pings that are above 0, or all three the server ping when no
  tracked ping is above 0. Any other poll tick appends nothing. With no player tracked,
  \<^verbatim>\<open>log_ping_data\<close> writes the server ping into all three fields.
\<close>

theorem poll_tick_ping_sample:
  "((\<forall>sd. data = Some sd \<longrightarrow> \<not> online sd \<or> sd_players sd = []) \<longrightarrow>
       ping_logs (update_server_status now lnow data st) = ping_logs st)
   \<and> (data = Some sd \<and> online sd \<and> sd_players sd \<noteq> [] \<longrightarrow>
       (let tracked = current_players (update_player_data now (sd_players sd)
                        (st\<lparr>server_status := sd, players_data := sd_players sd\<rparr>));
            pings = filter (\<lambda>p. 0 < p) (map (\<lambda>(n, d). tr_ping d) tracked)
        in set (map fst tracked) = current_player_names (sd_players sd)
         \<and> ping_logs (update_server_status now lnow data st) = ping_logs st @
             [if pings = []
              then \<lparr>ps_timestamp = now, low = sd_ping sd, avg = sd_ping sd,
                    high = sd_ping sd, server_ping = sd_ping sd\<rparr>
              else \<lparr>ps_timestamp = now, low = of_int (Min (set pings)),
                    avg = of_int (sum_list pings) / of_nat (length pings),
                    high = of_int (Max (set pings)), server_ping = sd_ping sd\<rparr>]))
   \<and> (current_players st = [] \<longrightarrow>
       ping_logs (log_ping_data now sp st) = ping_logs st @
         [\<lparr>ps_timestamp = now, low = sp, avg = sp, high = sp, server_ping = sp\<rparr>])"
proof (intro conjI impI)
  assume a: "\<forall>sd. data = Some sd \<longrightarrow> \<not> online sd \<or> sd_players sd = []"
  show "ping_logs (update_server_status now lnow data st) = ping_logs st"
  proof (cases data)
    case None
    then show ?thesis by (simp add: update_server_status_def)
  next
    case (Some sd')
    with a have "\<not> online sd' \<or> sd_players sd' = []" by simp
    with Some show ?thesis by (auto simp add: update_server_status_def Let_def)
  qed
next
  assume b: "data = Some sd \<and> online sd \<and> sd_players sd \<noteq> []"
  then show "let tracked = current_players (update_player_data now (sd_players sd)
                        (st\<lparr>server_status := sd, players_data := sd_players sd\<rparr>));
            pings = filter (\<lambda>p. 0 < p) (map (\<lambda>(n, d). tr_ping d) tracked)
        in set (map fst tracked) = current_player_names (sd_players sd)
         \<and> ping_logs (update_server_status now lnow data st) = ping_logs st @
             [if pings = []
              then \<lparr>ps_timestamp = now, low = sd_ping sd, avg = sd_ping sd,
                    high = sd_ping sd, server_ping = sd_ping sd\<rparr>
              else \<lparr>ps_timestamp = now, low = of_int (Min (set pings)),
                    avg = of_int (sum_list pings) / of_nat (length pings),
                    high = of_int (Max (set pings)), server_ping = sd_ping sd\<rparr>]"
    unfolding Let_def keys_after_update_player_data
    by (simp add: update_server_status_def Let_def ping_logs_log_ping_data)
next
  assume "current_players st = []"
  then show "ping_logs (log_ping_data now sp st) = ping_logs st @
         [\<lparr>ps_timestamp = now, low = sp, avg = sp, high = sp, server_ping = sp\<rparr>]"
    by (simp add: ping_logs_log_ping_data)
qed

theorem poll_tick_ping_sample_witness:
  "ping_logs (update_server_status 0 0 (Some three_up) init_state)
     = [\<lparr>ps_timestamp = 0, low = 35, avg = 85 / 2, high = 50, server_ping = 40\<rparr>]
   \<and> ping_logs (update_server_status 0 0 (Some down) init_state) = []
   \<and> ping_logs (log_ping_data 0 40 init_state)
     = [\<lparr>ps_timestamp = 0, low = 40, avg = 40, high = 40, server_ping = 40\<rparr>]"
proof -
  have p: "filter (\<lambda>p. 0 < p) (map (\<lambda>(n, d). tr_ping d)
             (current_players (update_player_data 0 (sd_players three_up)
                (init_state\<lparr>server_status := three_up, players_data := sd_players three_up\<rparr>))))
           = [35, 50]"
    by code_simp
  have i: "ping_logs init_state = []" "current_players init_state = []"
    by (simp_all add: init_state_def)
  have t: "online three_up" "sd_players three_up \<noteq> []" "sd_ping three_up = 40"
    by (simp_all add: three_up_def)
  have d: "\<forall>sd. Some down = Some sd \<longrightarrow> \<not> online sd \<or> sd_players sd = []"
    by (simp add: down_def)
  note a = poll_tick_ping_sample [of "Some three_up" 0 0 init_state three_up 40]
  note b = poll_tick_ping_sample [of "Some down" 0 0 init_state three_up 40]
  from a t have "ping_logs (update_server_status 0 0 (Some three_up) init_state)
     = [\<lparr>ps_timestamp = 0, low = 35, avg = 85 / 2, high = 50, server_ping = 40\<rparr>]"
    unfolding Let_def p i by simp
  moreover from b d have "ping_logs (update_server_status 0 0 (Some down) init_state) = []"
    unfolding i by blast
  moreover from a i have "ping_logs (log_ping_data 0 40 init_state)
     = [\<lparr>ps_timestamp = 0, low = 40, avg = 40, high = 40, server_ping = 40\<rparr>]"
    by simp
  ultimately show ?thesis by blast
qed

text \<open>
  The claim as stated fails on the two shortest runs: a poll tick that finds the status
  source down, and one that finds the server up with nobody on it, append no sample.
\<close>

theorem every_tick_sample_counterexample:
  "ping_logs (run failed_poll init_state) = []
   \<and> ping_logs (run empty_poll init_state) = []"
  by code_simp

section \<open>Ping statistics over a window\<close>

lemma nearest_tenth_rounds: "rounds_to_tenth nearest_tenth"
proof -
  have "\<bar>nearest_tenth x - x\<bar> \<le> 1 / 20" for x
  proof -
    define f where "f = \<lfloor>x * 10 + 1 / 2\<rfloor>"
    have "of_int f \<le> x * 10 + 1 / 2" and "x * 10 + 1 / 2 < of_int f + 1"
      unfolding f_def by linarith+
    then have "\<bar>of_int f - x * 10\<bar> \<le> 1 / 2"
      unfolding abs_le_iff by linarith
    then have "\<bar>of_int f - x * 10\<bar> / 10 \<le> (1 / 2) / 10"
      by (rule divide_right_mono) simp
    moreover have "\<bar>nearest_tenth x - x\<bar> = \<bar>of_int f - x * 10\<bar> / 10"
      by (simp add: nearest_tenth_def f_def abs_if field_simps)
    ultimately show ?thesis by simp
  qed
  moreover have "\<exists>k::int. nearest_tenth x = of_int k / 10" for x
    unfolding nearest_tenth_def by (rule exI) (rule refl)
  ultimately show ?thesis
    unfolding rounds_to_tenth_def by blast
qed

text \<open>The mean 4/3 is no tie: every rounding to a nearest tenth takes it to 1.3.\<close>

lemma rounds_to_tenth_four_thirds:
  assumes "rounds_to_tenth round1"
  shows "round1 (4 / 3) = 13 / 10"
proof -
  from assms obtain k :: int where k: "round1 (4 / 3) = of_int k / 10"
    and n: "\<bar>round1 (4 / 3) - 4 / 3\<bar> \<le> 1 / 20"
    unfolding rounds_to_tenth_def by blast
  from n have "\<bar>rat_of_int k / 10 - 4 / 3\<bar> \<le> 1 / 20" unfolding k .
  then have "rat_of_int k / 10 - 4 / 3 \<le> 1 / 20" and "- (rat_of_int k / 10 - 4 / 3) \<le> 1 / 20"
    unfolding abs_le_iff by blast+
  then have "rat_of_int k < of_int 14" and "of_int 12 < rat_of_int k"
    by linarith+
  then have "k < 14" and "12 < k"
    unfolding of_int_less_iff by simp_all
  then have "k = 13" by simp
  with k show ?thesis by simp
qed

text \<open>
  C9 (as amended). For every window, \<^verbatim>\<open>get_ping_stats\<close> returns \<^verbatim>\<open>None\<close> exactly when no
  ping sample has its timestamp in the window, whatever \<^verbatim>\<open>round\<close> does; otherwise it
  returns a result, and when \<^verbatim>\<open>round(x, 1)\<close> gives a multiple of 0.1 nearest to \<open>x\<close>, the
  low, avg and high of the result are multiples of 0.1 within 0.05 of the arithmetic means
  of the low, avg and high fields of the samples in the window.
\<close>

theorem ping_stats_none_or_rounded_means:
  "(let matched = filter (\<lambda>s. now - of_int hours * 3600 \<le> ps_timestamp s) (ping_logs st)
    in (get_ping_stats round1 now hours st = None \<longleftrightarrow> matched = [])
     \<and> (matched \<noteq> [] \<longrightarrow> (\<exists>r. get_ping_stats round1 now hours st = Some r))
     \<and> (rounds_to_tenth round1 \<and> matched \<noteq> [] \<longrightarrow>
          (\<exists>r. get_ping_stats round1 now hours st = Some r
              \<and> (\<exists>k::int. stat_low r = of_int k / 10)
              \<and> (\<exists>k::int. stat_avg r = of_int k / 10)
              \<and> (\<exists>k::int. stat_high r = of_int k / 10)
              \<and> \<bar>stat_low r - mongo_avg (map low matched)\<bar> \<le> 1 / 20
              \<and> \<bar>stat_avg r - mongo_avg (map avg matched)\<bar> \<le> 1 / 20
              \<and> \<bar>stat_high r - mongo_avg (map high matched)\<bar> \<le> 1 / 20)))"
proof -
  define matched where
    "matched = filter (\<lambda>s. now - of_int hours * 3600 \<le> ps_timestamp s) (ping_logs st)"
  show ?thesis
  proof (cases "matched = []")
    case True
    then have "get_ping_stats round1 now hours st = None"
      by (simp add: get_ping_stats_def matched_def)
    with True show ?thesis
      unfolding Let_def matched_def [symmetric] by simp
  next
    case False
    define r where
      "r = \<lparr>stat_low = round1 (mongo_avg (map low matched)),
            stat_avg = round1 (mongo_avg (map avg matched)),
            stat_high = round1 (mongo_avg (map high matched)),
            stat_min = round1 (Min (set (map low matched))),
            stat_max = round1 (Max (set (map high matched)))\<rparr>"
    from False have g: "get_ping_stats round1 now hours st = Some r"
      by (simp add: get_ping_stats_def Let_def matched_def r_def)
    have m: "stat_low r = round1 (mongo_avg (map low matched))"
      "stat_avg r = round1 (mongo_avg (map avg matched))"
      "stat_high r = round1 (mongo_avg (map high matched))"
      by (simp_all add: r_def)
    show ?thesis
      unfolding Let_def matched_def [symmetric]
    proof (intro conjI impI)
      show "(get_ping_stats round1 now hours st = None) = (matched = [])"
        using False g by simp
      show "\<exists>r. get_ping_stats round1 now hours st = Some r"
        using g by blast
    next
      assume "rounds_to_tenth round1 \<and> matched \<noteq> []"
      then have t: "\<And>x. \<exists>k::int. round1 x = of_int k / 10"
        and n: "\<And>x. \<bar>round1 x - x\<bar> \<le> 1 / 20"
        unfolding rounds_to_tenth_def by blast+
      have "\<exists>k::int. stat_low r = of_int k / 10"
        and "\<exists>k::int. stat_avg r = of_int k / 10"
        and "\<exists>k::int. stat_high r = of_int k / 10"
        unfolding m by (rule t)+
      moreover have "\<bar>stat_low r - mongo_avg (map low matched)\<bar> \<le> 1 / 20"
        and "\<bar>stat_avg r - mongo_avg (map avg matched)\<bar> \<le> 1 / 20"
        and "\<bar>stat_high r - mongo_avg (map high matched)\<bar> \<le> 1 / 20"
        unfolding m by (rule n)+
      ultimately show "\<exists>r. get_ping_stats round1 now hours st = Some r
              \<and> (\<exists>k::int. stat_low r = of_int k / 10)
              \<and> (\<exists>k::int. stat_avg r = of_int k / 10)
              \<and> (\<exists>k::int. stat_high r = of_int k / 10)
              \<and> \<bar>stat_low r - mongo_avg (map low matched)\<bar> \<le> 1 / 20
              \<and> \<bar>stat_avg r - mongo_avg (map avg matched)\<bar> \<le> 1 / 20
              \<and> \<bar>stat_high r - mongo_avg (map high matched)\<bar> \<le> 1 / 20"
        using g by (intro exI [of _ r] conjI)
    qed
  qed
qed

theorem ping_stats_none_or_rounded_means_witness:
  "get_ping_stats nearest_tenth 60 1 init_state = None
   \<and> get_ping_stats nearest_tenth 7200 1 (run ping_run init_state) = None
   \<and> get_ping_stats nearest_tenth 60 1 (run zero_ping_run init_state)
       = Some \<lparr>stat_low = 0, stat_avg = 0, stat_high = 0, stat_min = 0, stat_max = 0\<rparr>
   \<and> (\<exists>r. get_ping_stats nearest_tenth 60 1 (run ping_run init_state) = Some r
          \<and> (\<exists>k::int. stat_low r = of_int k / 10)
          \<and> \<bar>stat_low r - 4 / 3\<bar> \<le> 1 / 20)"
proof -
  have e: "filter (\<lambda>s. 60 - of_int 1 * 3600 \<le> ps_timestamp s) (ping_logs init_state) = []"
    by (simp add: init_state_def)
  have e2: "filter (\<lambda>s. 7200 - of_int 1 * 3600 \<le> ps_timestamp s)
              (ping_logs (run ping_run init_state)) = []"
    by code_simp
  have z: "get_ping_stats nearest_tenth 60 1 (run zero_ping_run init_state)
       = Some \<lparr>stat_low = 0, stat_avg = 0, stat_high = 0, stat_min = 0, stat_max = 0\<rparr>"
    by code_simp
  have m: "filter (\<lambda>s. 60 - of_int 1 * 3600 \<le> ps_timestamp s)
              (ping_logs (run ping_run init_state)) = ping_logs (run ping_run init_state)"
    by code_simp
  have n: "ping_logs (run ping_run init_state) \<noteq> []"
    by code_simp
  have a: "mongo_avg (map low (ping_logs (run ping_run init_state))) = 4 / 3"
    by code_simp
  from ping_stats_none_or_rounded_means [of 60 1 init_state nearest_tenth] e
  have 1: "get_ping_stats nearest_tenth 60 1 init_state = None" by (simp add: Let_def)
  from ping_stats_none_or_rounded_means [of 7200 1 "run ping_run init_state" nearest_tenth] e2
  have 2: "get_ping_stats nearest_tenth 7200 1 (run ping_run init_state) = None"
    by (simp add: Let_def)
  from ping_stats_none_or_rounded_means [of 60 1 "run ping_run init_state" nearest_tenth] n
    nearest_tenth_rounds
  have 3: "\<exists>r. get_ping_stats nearest_tenth 60 1 (run ping_run init_state) = Some r
          \<and> (\<exists>k::int. stat_low r = of_int k / 10)
          \<and> \<bar>stat_low r - 4 / 3\<bar> \<le> 1 / 20"
    unfolding Let_def m a by blast
  from 1 2 z 3 show ?thesis by blast
qed

text \<open>
  The claim as stated fails on \<open>ping_run\<close>: the three samples have low 1, 1 and 2, whose
  arithmetic mean is 4/3, and the result carries 1.3 (by \<open>rounds_to_tenth_four_thirds\<close>
  with every rounding to a nearest tenth).
\<close>

theorem exact_mean_counterexample:
  "map low (ping_logs (run ping_run init_state)) = [1, 1, 2]
   \<and> mongo_avg (map low (ping_logs (run ping_run init_state))) = 4 / 3
   \<and> map_option stat_low (get_ping_stats nearest_tenth 60 1 (run ping_run init_state))
       = Some (13 / 10)
   \<and> map_option stat_low (get_ping_stats nearest_tenth 60 1 (run ping_run init_state))
       \<noteq> Some (mongo_avg (map low (ping_logs (run ping_run init_state))))"
proof -
  have l: "map low (ping_logs (run ping_run init_state)) = [1, 1, 2]"
    by code_simp
  have a: "mongo_avg (map low (ping_logs (run ping_run init_state))) = 4 / 3"
    by code_simp
  have s: "map_option stat_low (get_ping_stats nearest_tenth 60 1 (run ping_run init_state))
             = Some (13 / 10)"
    by code_simp
  show ?thesis unfolding l s by (simp add: mongo_avg_def)
qed

section \<open>Names the fetcher drops\<close>

lemma parse_players_append:
  "parse_players str_strip str_lower (xs @ ys)
     = parse_players str_strip str_lower xs @ parse_players str_strip str_lower ys"
  by (induction xs) (simp_all add: Let_def)

lemma parse_players_excluded:
  "excluded str_strip str_lower (rp_name e) \<Longrightarrow>
   parse_players str_strip str_lower (e # ys) = parse_players str_strip str_lower ys"
  by (simp add: excluded_def Let_def)

lemma parse_players_names:
  "map pe_name (parse_players str_strip str_lower raw)
     = map (\<lambda>e. str_strip (rp_name e))
         (filter (\<lambda>e. \<not> excluded str_strip str_lower (rp_name e)) raw)"
  by (induction raw) (simp_all add: excluded_def Let_def)

lemma parsed_name_accepted:
  assumes "p \<in> set (parse_players str_strip str_lower raw)"
  shows "pe_name p \<noteq> []" and "str_lower (pe_name p) \<notin> set [''unknown'', [], ''null'']"
proof -
  from assms have "pe_name p \<in> set (map pe_name (parse_players str_strip str_lower raw))"
    by simp
  then have "pe_name p \<in> (\<lambda>e. str_strip (rp_name e))
               ` {e \<in> set raw. \<not> excluded str_strip str_lower (rp_name e)}"
    unfolding parse_players_names by simp
  then obtain e :: raw_player where "\<not> excluded str_strip str_lower (rp_name e)"
    and "pe_name p = str_strip (rp_name e)"
    by blast
  then show "pe_name p \<noteq> []" and "str_lower (pe_name p) \<notin> set [''unknown'', [], ''null'']"
    by (simp_all add: excluded_def Let_def)
qed

text \<open>The reconciler has a guard of its own, on the empty name and on \<^verbatim>\<open>Unknown\<close>; it never
  fires on a roster of the fetcher, since \<^verbatim>\<open>'Unknown'.lower()\<close> is \<^verbatim>\<open>'unknown'\<close>.\<close>

lemma current_player_names_parsed:
  assumes "str_lower ''Unknown'' = ''unknown''"
  shows "current_player_names (parse_players str_strip str_lower raw)
           = set (map pe_name (parse_players str_strip str_lower raw))"
proof -
  have "pe_name p \<noteq> [] \<and> pe_name p \<noteq> ''Unknown''"
    if "p \<in> set (parse_players str_strip str_lower raw)" for p
    using parsed_name_accepted [OF that] assms by auto
  then show ?thesis
    by (auto simp add: current_player_names_def)
qed

lemma sentinel_not_parsed:
  assumes "q = [] \<or> str_lower q \<in> set [''unknown'', [], ''null'']"
  shows "q \<notin> pe_name ` set (parse_players str_strip str_lower raw)"
proof
  assume "q \<in> pe_name ` set (parse_players str_strip str_lower raw)"
  then obtain p where p: "p \<in> set (parse_players str_strip str_lower raw)" and q: "pe_name p = q"
    by blast
  from parsed_name_accepted [OF p] assms show False
    unfolding q by blast
qed

section \<open>A name that is in no roster stays unseen\<close>

lemma view_handle_player_join:
  "n \<noteq> q \<Longrightarrow> view q (handle_player_join now cpd n st) = view q st"
  by (simp add: handle_player_join_def view_log_event split: option.splits)

lemma view_handle_player_leave:
  "n \<noteq> q \<Longrightarrow> view q (handle_player_leave lnow now n st) = view q st"
  by (simp add: handle_player_leave_def Let_def view_log_event)

lemma view_fold_join:
  "q \<notin> set ns \<Longrightarrow> view q (fold (handle_player_join now cpd) ns st) = view q st"
  by (induction ns arbitrary: st) (auto simp add: view_handle_player_join)

lemma view_fold_leave:
  "q \<notin> set ns \<Longrightarrow> view q (fold (handle_player_leave lnow now) ns st) = view q st"
  by (induction ns arbitrary: st) (auto simp add: view_handle_player_leave)

lemma view_notification_fields [simp]:
  "view q (st\<lparr>previous_players := a\<rparr>) = view q st"
  "view q (st\<lparr>player_join_times := b\<rparr>) = view q st"
  "view q (st\<lparr>server_status := c\<rparr>) = view q st"
  "view q (st\<lparr>players_data := d\<rparr>) = view q st"
  "view q (st\<lparr>last_server_online := e\<rparr>) = view q st"
  by (simp_all add: view_def)

lemma map_of_fold_delete:
  "map_of (fold AList.delete ls al) q = (if q \<in> set ls then None else map_of al q)"
  by (induction ls arbitrary: al) (simp_all add: AList.delete_conv')

lemma map_of_fold_join_times:
  "q \<notin> set cs \<Longrightarrow>
   map_of (fold (\<lambda>n jt. if map_of jt n = None then AList.update n lnow jt else jt) cs al) q
     = map_of al q"
  by (induction cs arbitrary: al) (auto simp add: AList.update_conv')

lemma check_player_changes_unseen:
  assumes "q \<notin> pe_name ` set cpd" "q \<notin> set (previous_players st)"
  shows "view q (check_player_changes lnow now cpd st) = view q st"
    and "q \<notin> set (previous_players (check_player_changes lnow now cpd st))"
    and "map_of (player_join_times (check_player_changes lnow now cpd st)) q
           = map_of (player_join_times st) q"
  using assms
  by (auto simp add: check_player_changes_def Let_def view_fold_join view_fold_leave
        map_of_fold_delete map_of_fold_join_times)

lemma never_seen_view:
  "never_seen q st \<longleftrightarrow>
     view q st = \<lparr>v_tracked = None, v_started = None, v_doc = None, v_events = []\<rparr>
     \<and> q \<notin> set (previous_players st) \<and> map_of (player_join_times st) q = None"
  by (auto simp add: never_seen_def view_def events_of_def)

lemma never_seen_update_server_status:
  assumes "never_seen q st" "\<forall>sd. data = Some sd \<longrightarrow> q \<notin> pe_name ` set (sd_players sd)"
  shows "never_seen q (update_server_status now lnow data st)"
proof (cases "case data of None \<Rightarrow> False | Some sd \<Rightarrow> online sd \<and> sd_players sd \<noteq> []")
  case False
  then have "update_server_status now lnow data st =
      st\<lparr>server_status := (server_status st)\<lparr>online := False, clients := 0, sd_ping := 0\<rparr>,
         players_data := [], last_server_online := False\<rparr>
    \<or> (\<exists>sd. update_server_status now lnow data st = st\<lparr>server_status := sd, last_server_online := True\<rparr>)"
    by (auto simp add: update_server_status_def Let_def split: option.splits)
  with assms(1) show ?thesis
    by (auto simp add: never_seen_view)
next
  case True
  then obtain sd where sd: "data = Some sd" "online sd" "sd_players sd \<noteq> []"
    by (auto split: option.splits)
  with assms(2) have nq: "q \<notin> pe_name ` set (sd_players sd)" by simp
  then have ncp: "q \<notin> current_player_names (sd_players sd)"
    by (auto simp add: current_player_names_def)
  let ?s0 = "st\<lparr>server_status := sd, players_data := sd_players sd\<rparr>"
  let ?s1 = "update_player_data now (sd_players sd) ?s0"
  let ?s2 = "log_ping_data now (sd_ping sd) ?s1"
  let ?s3 = "check_player_changes lnow now (sd_players sd) ?s2"
  from assms(1) have u: "map_of (current_players ?s0) q = None"
    by (simp add: never_seen_def)
  have v1: "view q ?s1 = view q st"
    using update_player_data_absent [OF ncp u, of now] by simp
  have p2: "q \<notin> set (previous_players ?s2)" "player_join_times ?s2 = player_join_times st"
    using assms(1) by (simp_all add: never_seen_def)
  note c = check_player_changes_unseen [OF nq p2(1), of lnow now]
  have "never_seen q ?s3"
    using assms(1) c v1 p2(2) by (simp add: never_seen_view)
  moreover have "update_server_status now lnow data st = ?s3\<lparr>last_server_online := True\<rparr>"
    using sd by (simp add: update_server_status_def Let_def)
  ultimately show ?thesis
    by (simp add: never_seen_view)
qed

lemma never_seen_cleanup_task:
  assumes "never_seen q st"
  shows "never_seen q (cleanup_task now h st)"
proof -
  from assms have "map_of (current_players st) q = None" by (simp add: never_seen_def)
  then have "q \<notin> fst ` set (current_players st)" by (simp add: key_mem_map_of)
  then have "q \<notin> set (map fst (filter (\<lambda>(n, d). now - last_update d > offline_threshold)
                (current_players st)))"
    by auto
  then have v: "view q (clean_offline_players now st) = view q st"
    by (simp add: view_clean_offline_players)
  have f: "previous_players (clean_offline_players now st) = previous_players st"
    "player_join_times (clean_offline_players now st) = player_join_times st"
    by (simp_all add: clean_offline_players_def)
  from assms v f have a: "never_seen q (clean_offline_players now st)"
    by (simp add: never_seen_view)
  have "never_seen q (cleanup_old_data now st')" if "never_seen q st'" for st'
    using that by (auto simp add: never_seen_def cleanup_old_data_def events_of_def filter_empty_conv)
  with a show ?thesis by (simp add: cleanup_task_def Let_def)
qed

lemma never_seen_step:
  assumes "never_seen q st" "q = [] \<or> str_lower q \<in> set [''unknown'', [], ''null'']"
  shows "never_seen q (step (fetch str_strip str_lower t) st)"
proof (cases t)
  case (RawPoll now lnow status_data raw)
  have "q \<notin> pe_name ` set (sd_players sd)"
    if "get_comprehensive_server_data str_strip str_lower status_data raw = Some sd" for sd
  proof -
    from that have "sd_players sd = []
        \<or> (\<exists>l. sd_players sd = parse_players str_strip str_lower l)"
      by (auto simp add: get_comprehensive_server_data_def get_players_def
            split: option.splits if_splits)
    then show ?thesis
    proof
      assume "sd_players sd = []"
      then show ?thesis by simp
    next
      assume "\<exists>l. sd_players sd = parse_players str_strip str_lower l"
      then obtain l where "sd_players sd = parse_players str_strip str_lower l" by blast
      moreover have "q \<notin> pe_name ` set (parse_players str_strip str_lower l)"
        using assms(2) by (rule sentinel_not_parsed)
      ultimately show ?thesis by simp
    qed
  qed
  with assms(1) RawPoll show ?thesis
    by (simp add: never_seen_update_server_status)
next
  case (RawCleanup now h)
  with assms(1) show ?thesis by (simp add: never_seen_cleanup_task)
qed

lemma never_seen_run:
  assumes "q = [] \<or> str_lower q \<in> set [''unknown'', [], ''null'']"
  shows "never_seen q st \<Longrightarrow> never_seen q (run (map (fetch str_strip str_lower) ts) st)"
proof (induction ts arbitrary: st)
  case Nil
  then show ?case by simp
next
  case (Cons t ts)
  from Cons.prems assms have "never_seen q (step (fetch str_strip str_lower t) st)"
    by (rule never_seen_step)
  then show ?case by (simp add: Cons.IH)
qed

lemma never_seen_init: "never_seen q init_state"
  by (simp add: never_seen_def init_state_def events_of_def)

text \<open>
  C8 (as amended). Whatever \<^verbatim>\<open>str.strip\<close> and \<^verbatim>\<open>str.lower\<close> do: a raw roster entry whose
  stripped name is empty, or lowers to \<^verbatim>\<open>unknown\<close>, \<^verbatim>\<open>null\<close> or the empty string, is
  dropped by the fetcher, and the poll tick is the one it would be without the entry. So in
  every state the bot reaches through the fetcher, a name that is empty or lowers to one of
  these (\<^verbatim>\<open>Unknown\<close> and \<^verbatim>\<open>null\<close> among them) has no tracked entry, no session start, no
  player document, no event and no notification tracking. Every other entry is tracked
  under its stripped name, and these are matched exactly: after a reconciled tick the
  tracked names are exactly the stripped names of the entries that were not dropped.
\<close>

theorem sentinel_names_are_excluded:
  "(excluded str_strip str_lower (rp_name e) \<longrightarrow>
      step (fetch str_strip str_lower (RawPoll now lnow status_data (Some (xs @ e # ys)))) st
        = step (fetch str_strip str_lower (RawPoll now lnow status_data (Some (xs @ ys)))) st)
   \<and> (q = [] \<or> str_lower q \<in> set [''unknown'', [], ''null''] \<longrightarrow>
        map_of (current_players (run (map (fetch str_strip str_lower) ts) init_state)) q = None
      \<and> map_of (session_start_times (run (map (fetch str_strip str_lower) ts) init_state)) q
          = None
      \<and> players (run (map (fetch str_strip str_lower) ts) init_state) q = None
      \<and> events_of q (run (map (fetch str_strip str_lower) ts) init_state) = []
      \<and> q \<notin> set (previous_players (run (map (fetch str_strip str_lower) ts) init_state))
      \<and> map_of (player_join_times (run (map (fetch str_strip str_lower) ts) init_state)) q
          = None)
   \<and> (str_lower ''Unknown'' = ''unknown'' \<and> status_data = Some sd \<and> online sd
        \<and> parse_players str_strip str_lower raw \<noteq> [] \<longrightarrow>
        set (map fst (current_players
               (step (fetch str_strip str_lower (RawPoll now lnow status_data (Some raw))) st)))
          = (\<lambda>e. str_strip (rp_name e))
              ` {e \<in> set raw. \<not> excluded str_strip str_lower (rp_name e)})"
proof (intro conjI impI)
  assume "excluded str_strip str_lower (rp_name e)"
  then have "parse_players str_strip str_lower (xs @ e # ys)
      = parse_players str_strip str_lower (xs @ ys)"
    by (simp add: parse_players_append parse_players_excluded del: parse_players.simps)
  then have g: "get_players str_strip str_lower (Some (xs @ e # ys))
      = get_players str_strip str_lower (Some (xs @ ys))"
    by (simp add: get_players_def)
  show "step (fetch str_strip str_lower (RawPoll now lnow status_data (Some (xs @ e # ys)))) st
        = step (fetch str_strip str_lower (RawPoll now lnow status_data (Some (xs @ ys)))) st"
    unfolding fetch.simps get_comprehensive_server_data_def g by (rule refl)
next
  let ?st = "run (map (fetch str_strip str_lower) ts) init_state"
  assume q: "q = [] \<or> str_lower q \<in> set [''unknown'', [], ''null'']"
  have n: "never_seen q ?st"
    using q never_seen_init by (rule never_seen_run)
  from n show "map_of (current_players ?st) q = None"
    and "map_of (session_start_times ?st) q = None"
    and "players ?st q = None"
    and "events_of q ?st = []"
    and "q \<notin> set (previous_players ?st)"
    and "map_of (player_join_times ?st) q = None"
    by (simp_all add: never_seen_def)
next
  assume a: "str_lower ''Unknown'' = ''unknown'' \<and> status_data = Some sd \<and> online sd
        \<and> parse_players str_strip str_lower raw \<noteq> []"
  let ?roster = "parse_players str_strip str_lower raw"
  let ?st' = "step (fetch str_strip str_lower (RawPoll now lnow status_data (Some raw))) st"
  have "current_players ?st'
      = current_players (update_player_data now ?roster
          (st\<lparr>server_status := sd\<lparr>sd_players := ?roster\<rparr>, players_data := ?roster\<rparr>))"
    using a
    by (simp add: get_comprehensive_server_data_def get_players_def update_server_status_def
          Let_def)
  then have "set (map fst (current_players ?st')) = set (map pe_name ?roster)"
    using a by (simp only: keys_after_update_player_data current_player_names_parsed)
  then show "set (map fst (current_players ?st'))
          = (\<lambda>e. str_strip (rp_name e))
              ` {e \<in> set raw. \<not> excluded str_strip str_lower (rp_name e)}"
    by (simp add: parse_players_names)
qed

theorem sentinel_names_are_excluded_witness:
  "step (fetch ascii_strip ascii_lower
           (RawPoll 0 0 (Some up)
              (Some ([raw_named ''Ann''] @ raw_named ''Unknown'' # [raw_named ''Bob'']))))
        init_state
     = step (fetch ascii_strip ascii_lower
               (RawPoll 0 0 (Some up) (Some ([raw_named ''Ann''] @ [raw_named ''Bob'']))))
         init_state
   \<and> map_of (current_players (run (map (fetch ascii_strip ascii_lower) sentinel_run) init_state))
       ''null'' = None
   \<and> players (run (map (fetch ascii_strip ascii_lower) sentinel_run) init_state) ''null'' = None
   \<and> events_of ''null'' (run (map (fetch ascii_strip ascii_lower) sentinel_run) init_state) = []
   \<and> players (run (map (fetch ascii_strip ascii_lower) sentinel_run) init_state) ''Unknown''
       = None
   \<and> events_of ''Unknown'' (run (map (fetch ascii_strip ascii_lower) sentinel_run) init_state)
       = []
   \<and> map fst (current_players (run (map (fetch ascii_strip ascii_lower) sentinel_run) init_state))
       = [''Bob'']
   \<and> set (map fst (current_players
        (step (fetch ascii_strip ascii_lower
                 (RawPoll 0 0 (Some up) (Some [raw_named ''Alice'', raw_named ''alice''])))
           init_state)))
       = {''Alice'', ''alice''}"
proof -
  have e: "excluded ascii_strip ascii_lower (rp_name (raw_named ''Unknown''))"
    by code_simp
  have q: "''null'' = [] \<or> ascii_lower ''null'' \<in> set [''unknown'', [], ''null'']"
    by code_simp
  have u: "''Unknown'' = [] \<or> ascii_lower ''Unknown'' \<in> set [''unknown'', [], ''null'']"
    by code_simp
  have k: "map fst (current_players (run (map (fetch ascii_strip ascii_lower) sentinel_run)
             init_state)) = [''Bob'']"
    by code_simp
  have l: "ascii_lower ''Unknown'' = ''unknown''" "online up"
    "parse_players ascii_strip ascii_lower [raw_named ''Alice'', raw_named ''alice''] \<noteq> []"
    by code_simp+
  have c: "(\<lambda>e. ascii_strip (rp_name e))
             ` {e \<in> set [raw_named ''Alice'', raw_named ''alice''].
                  \<not> excluded ascii_strip ascii_lower (rp_name e)} = {''Alice'', ''alice''}"
    by code_simp
  note t = sentinel_names_are_excluded
    [of ascii_strip ascii_lower "raw_named ''Unknown''" 0 0 "Some up" "[raw_named ''Ann'']"
        "[raw_named ''Bob'']" init_state "''null''" sentinel_run up
        "[raw_named ''Alice'', raw_named ''alice'']"]
  note t' = sentinel_names_are_excluded
    [of ascii_strip ascii_lower "raw_named ''Unknown''" 0 0 "Some up" "[raw_named ''Ann'']"
        "[raw_named ''Bob'']" init_state "''Unknown''" sentinel_run up
        "[raw_named ''Alice'', raw_named ''alice'']"]
  from t t' e q u k l show ?thesis unfolding c by blast
qed

text \<open>
  The claim as stated fails on \<open>capitals_run\<close>: \<^verbatim>\<open>NULL\<close> is none of the names the claim
  lists, yet the entry is dropped and produces nothing, and the entry named \<^verbatim>\<open>Bob\<close>
  between blanks is tracked as \<^verbatim>\<open>Bob\<close>, not under the name it came with.
\<close>

theorem exact_matching_counterexample:
  "map fst (current_players (run (map (fetch ascii_strip ascii_lower) capitals_run) init_state))
     = [''Bob'']
   \<and> players (run (map (fetch ascii_strip ascii_lower) capitals_run) init_state) ''NULL'' = None
   \<and> events_of ''NULL'' (run (map (fetch ascii_strip ascii_lower) capitals_run) init_state) = []
   \<and> players (run (map (fetch ascii_strip ascii_lower) capitals_run) init_state) '' Bob ''
       = None
   \<and> events_of '' Bob '' (run (map (fetch ascii_strip ascii_lower) capitals_run) init_state)
       = []"
  by code_simp

section \<open>Sorting the fetched events\<close>

lemma sort_key_after_descending:
  fixes f :: "'a \<Rightarrow> rat"
  shows "sort_key f (sort_key (\<lambda>x. - f x) xs) = sort_key f xs"
proof (rule properties_for_sort_key)
  show "mset (sort_key f xs) = mset (sort_key (\<lambda>x. - f x) xs)" by simp
  show "sorted (map f (sort_key f xs))" by simp
  fix k
  have "filter (\<lambda>x. f k = f x) (sort_key f xs) = filter (\<lambda>x. f x = f k) (sort_key f xs)"
    by (rule filter_cong) auto
  also have "\<dots> = filter (\<lambda>x. f x = f k) xs" by (rule sort_key_stable)
  also have "\<dots> = filter (\<lambda>x. - f x = - f k) xs"
    by (rule filter_cong) auto
  also have "\<dots> = filter (\<lambda>x. - f x = - f k) (sort_key (\<lambda>x. - f x) xs)"
    by (rule sort_key_stable [symmetric])
  also have "\<dots> = filter (\<lambda>x. f k = f x) (sort_key (\<lambda>x. - f x) xs)"
    by (rule filter_cong) auto
  finally show "filter (\<lambda>x. f k = f x) (sort_key f xs)
      = filter (\<lambda>x. f k = f x) (sort_key (\<lambda>x. - f x) xs)" .
qed

lemma sort_key_Nil_iff: "sort_key f xs = [] \<longleftrightarrow> xs = []"
proof
  assume "sort_key f xs = []"
  then have "length (sort_key f xs) = 0" by simp
  then show "xs = []" by simp
qed simp

lemma insort_key_snoc:
  fixes g :: "'a \<Rightarrow> rat"
  shows "\<forall>y\<in>set ys. g y < g x \<Longrightarrow> insort_key g x ys = ys @ [x]"
  by (induction ys) auto

lemma sort_key_descending_rev:
  fixes f :: "'a \<Rightarrow> rat"
  shows "sorted_wrt (\<lambda>a b. f a < f b) xs \<Longrightarrow> sort_key (\<lambda>x. - f x) xs = rev xs"
proof (induction xs)
  case Nil
  then show ?case by simp
next
  case (Cons x xs)
  then have "\<forall>y\<in>set (rev xs). - f y < - f x" by auto
  from insort_key_snoc [of "rev xs" "\<lambda>x. - f x" x, OF this] Cons show ?case
    by simp
qed

lemma sort_key_strict_id:
  fixes f :: "'a \<Rightarrow> rat"
  assumes "sorted_wrt (\<lambda>a b. f a < f b) xs"
  shows "sort_key f xs = xs" and "sort_key f (rev xs) = xs"
proof -
  have "sorted_wrt (\<lambda>a b. f a \<le> f b) xs"
    using assms by (rule sorted_wrt_mono_rel [rotated]) simp
  then have s: "sorted (map f xs)" by (simp add: sorted_map)
  then show i: "sort_key f xs = xs" by (rule sort_key_id_if_sorted)
  have "sort_key f (rev xs) = sort_key f (sort_key (\<lambda>x. - f x) xs)"
    by (simp add: sort_key_descending_rev [OF assms])
  then show "sort_key f (rev xs) = xs"
    by (simp add: sort_key_after_descending i)
qed

section \<open>Peak concurrency against the replay of the whole window\<close>

lemma calculate_peak_players_fetched:
  "calculate_peak_players now days st
     = replay_all_in_window now days (st\<lparr>event_logs := get_recent_events 1000 st\<rparr>)"
  by (simp add: calculate_peak_players_def replay_all_in_window_def Let_def)

lemma calculate_peak_players_short_log:
  assumes "length (event_logs st) \<le> 1000"
  shows "calculate_peak_players now days st = replay_all_in_window now days st"
proof -
  let ?P = "\<lambda>e. now - of_int days * 86400 \<le> ev_timestamp e"
  have "get_recent_events 1000 st = sort_key (\<lambda>e. - ev_timestamp e) (event_logs st)"
    using assms by (simp add: get_recent_events_def)
  then have f: "filter ?P (get_recent_events 1000 st)
      = sort_key (\<lambda>e. - ev_timestamp e) (filter ?P (event_logs st))"
    by (simp add: filter_sort)
  have e: "filter ?P (get_recent_events 1000 st) = [] \<longleftrightarrow> filter ?P (event_logs st) = []"
    unfolding f by (rule sort_key_Nil_iff)
  show ?thesis
    unfolding calculate_peak_players_def replay_all_in_window_def Let_def e
    by (simp add: f sort_key_after_descending)
qed

lemma calculate_peak_players_fallback:
  assumes "filter (\<lambda>e. now - of_int days * 86400 \<le> ev_timestamp e) (event_logs st) = []"
  shows "calculate_peak_players now days st = length (current_players st)"
proof -
  have "set (get_recent_events 1000 st) \<subseteq> set (event_logs st)"
    unfolding get_recent_events_def by (metis set_take_subset set_sort)
  with assms
  have "filter (\<lambda>e. now - of_int days * 86400 \<le> ev_timestamp e) (get_recent_events 1000 st) = []"
    by (auto simp add: filter_empty_conv)
  then show ?thesis by (simp add: calculate_peak_players_def)
qed

lemma replay_four_events:
  assumes "map event_type [e0, e1, e2, e3] = [''join'', ''join'', ''leave'', ''join'']"
    and "map player_name [e0, e1, e2, e3] = [a, b, a, c]" and "a \<noteq> b"
  shows "replay [e0, e1, e2, e3] {} 0 = 2"
proof -
  have "replay [e0, e1, e2, e3] {} 0 = max 2 (card (insert c {b}))"
    using assms by (simp add: Let_def insert_Diff_if)
  also have "\<dots> = 2"
    by (simp add: card_insert_if)
  finally show ?thesis .
qed

text \<open>
  C5 (as amended). The peak computation is the replay the specification describes
  (chronological order, insert on join, remove on leave, the largest set size seen, the
  live count when nothing falls in the window), applied to the 1000 most recent events of
  the log: it is the replay of the whole window whenever the log holds at most 1000
  events. On four events join(a), join(b), leave(a), join(c) at increasing times, all in
  the window, with a and b different, it returns 2; when no event of the log falls in the
  window it returns the number of tracked players.
\<close>

theorem peak_players_replay:
  "calculate_peak_players now days st
     = replay_all_in_window now days (st\<lparr>event_logs := get_recent_events 1000 st\<rparr>)
   \<and> (length (event_logs st) \<le> 1000 \<longrightarrow>
        calculate_peak_players now days st = replay_all_in_window now days st)
   \<and> (event_logs st = [e0, e1, e2, e3]
        \<and> map event_type [e0, e1, e2, e3] = [''join'', ''join'', ''leave'', ''join'']
        \<and> map player_name [e0, e1, e2, e3] = [a, b, a, c] \<and> a \<noteq> b
        \<and> now - of_int days * 86400 \<le> ev_timestamp e0
        \<and> ev_timestamp e0 < ev_timestamp e1 \<and> ev_timestamp e1 < ev_timestamp e2
        \<and> ev_timestamp e2 < ev_timestamp e3 \<longrightarrow>
        calculate_peak_players now days st = 2)
   \<and> (filter (\<lambda>e. now - of_int days * 86400 \<le> ev_timestamp e) (event_logs st) = [] \<longrightarrow>
        calculate_peak_players now days st = length (current_players st))"
proof (intro conjI impI)
  show "calculate_peak_players now days st
     = replay_all_in_window now days (st\<lparr>event_logs := get_recent_events 1000 st\<rparr>)"
    by (rule calculate_peak_players_fetched)
next
  assume "length (event_logs st) \<le> 1000"
  then show "calculate_peak_players now days st = replay_all_in_window now days st"
    by (rule calculate_peak_players_short_log)
next
  assume a: "event_logs st = [e0, e1, e2, e3]
        \<and> map event_type [e0, e1, e2, e3] = [''join'', ''join'', ''leave'', ''join'']
        \<and> map player_name [e0, e1, e2, e3] = [a, b, a, c] \<and> a \<noteq> b
        \<and> now - of_int days * 86400 \<le> ev_timestamp e0
        \<and> ev_timestamp e0 < ev_timestamp e1 \<and> ev_timestamp e1 < ev_timestamp e2
        \<and> ev_timestamp e2 < ev_timestamp e3"
  then have l: "length (event_logs st) \<le> 1000" by simp
  from a have f: "filter (\<lambda>e. now - of_int days * 86400 \<le> ev_timestamp e) (event_logs st)
      = [e0, e1, e2, e3]"
    by simp
  from a have "sorted_wrt (\<lambda>a b. ev_timestamp a < ev_timestamp b) [e0, e1, e2, e3]"
    by simp
  then have s: "sort_key ev_timestamp [e0, e1, e2, e3] = [e0, e1, e2, e3]"
    by (rule sort_key_strict_id(1))
  from a have "map event_type [e0, e1, e2, e3] = [''join'', ''join'', ''leave'', ''join'']"
    and "map player_name [e0, e1, e2, e3] = [a, b, a, c]" and "a \<noteq> b"
    by simp_all
  then have r: "replay [e0, e1, e2, e3] {} 0 = 2"
    by (rule replay_four_events)
  show "calculate_peak_players now days st = 2"
    unfolding calculate_peak_players_short_log [OF l] replay_all_in_window_def Let_def f s r
    by simp
next
  assume "filter (\<lambda>e. now - of_int days * 86400 \<le> ev_timestamp e) (event_logs st) = []"
  then show "calculate_peak_players now days st = length (current_players st)"
    by (rule calculate_peak_players_fallback)
qed

theorem peak_players_replay_witness:
  "calculate_peak_players 50 1 four_events_state = 2
   \<and> length (current_players (run one_tick init_state)) = 2
   \<and> calculate_peak_players 1000000 1 (run one_tick init_state) = 2"
proof -
  have l: "length (current_players (run one_tick init_state)) = 2"
    by code_simp
  have e: "filter (\<lambda>e. 1000000 - of_int 1 * 86400 \<le> ev_timestamp e)
             (event_logs (run one_tick init_state)) = []"
    by code_simp
  note a = peak_players_replay
    [of 50 1 four_events_state "join_event 10 (entry ''A'' 30)" "join_event 20 (entry ''B'' 30)"
        "leave_event 30 ''A'' 20 None" "join_event 40 (entry ''C'' 30)" "''A''" "''B''" "''C''"]
  note b = peak_players_replay [of 1000000 1 "run one_tick init_state"]
  from a have "calculate_peak_players 50 1 four_events_state = 2"
    by (simp add: four_events_state_def join_event_def leave_event_def entry_def init_state_def)
  moreover from b e
  have "calculate_peak_players 1000000 1 (run one_tick init_state)
      = length (current_players (run one_tick init_state))"
    by blast
  then have "calculate_peak_players 1000000 1 (run one_tick init_state) = 2"
    using l by simp
  ultimately show ?thesis using l by blast
qed

section \<open>A window with more than 1000 events\<close>

lemma hops_times: "e \<in> set (hops t k) \<Longrightarrow> of_nat t \<le> ev_timestamp e"
proof (induction k arbitrary: t)
  case 0
  then show ?case by simp
next
  case (Suc k)
  from Suc.prems Suc.IH [of "Suc (Suc t)"] show ?case
    by (auto simp add: join_event_def leave_event_def)
qed

lemma hops_strict: "sorted_wrt (\<lambda>a b. ev_timestamp a < ev_timestamp b) (hops t k)"
proof (induction k arbitrary: t)
  case 0
  then show ?case by simp
next
  case (Suc k)
  have "rat_of_nat t < ev_timestamp e \<and> 1 + rat_of_nat t < ev_timestamp e"
    if "e \<in> set (hops (Suc (Suc t)) k)" for e
    using hops_times [OF that] by simp
  with Suc.IH [of "Suc (Suc t)"] show ?case
    by (simp add: join_event_def leave_event_def)
qed

lemma length_hops: "length (hops t k) = 2 * k"
  by (induction k arbitrary: t) simp_all

lemma replay_hops:
  assumes "finite S" "''Bob'' \<notin> S"
  shows "replay (hops t k) S m = (if k = 0 then m else max m (Suc (card S)))"
  using assms
proof (induction k arbitrary: t m)
  case 0
  then show ?case by simp
next
  case (Suc k)
  have "replay (hops t (Suc k)) S m = replay (hops (Suc (Suc t)) k) S (max m (Suc (card S)))"
    using Suc.prems
    by (simp add: Let_def join_event_def leave_event_def entry_def max_def)
  with Suc.IH [OF Suc.prems, of "Suc (Suc t)" "max m (Suc (card S))"] show ?case
    by simp
qed

text \<open>
  The claim as stated fails on \<open>busy_state\<close>: all 1001 events fall in the window, Ann is
  online throughout and Bob is online with her 500 times, so the replay of the window
  peaks at 2; the computation reads only the 1000 most recent events, which leaves out
  Ann's join, and returns 1.
\<close>

theorem peak_limit_counterexample:
  "length (event_logs busy_state) = 1001
   \<and> replay_all_in_window 1000 1 busy_state = 2
   \<and> calculate_peak_players 1000 1 busy_state = 1"
proof -
  let ?J = "join_event 0 (entry ''Ann'' 35)"
  let ?H = "hops 1 500"
  let ?P = "\<lambda>e. (1000::rat) - of_int 1 * 86400 \<le> ev_timestamp e"
  have log: "event_logs busy_state = ?J # ?H"
    by (simp add: busy_state_def)
  have len: "length (event_logs busy_state) = 1001"
    by (simp add: log length_hops)
  have pos: "0 < ev_timestamp e" if "e \<in> set ?H" for e
    using hops_times [OF that] by simp
  have strict: "sorted_wrt (\<lambda>a b. ev_timestamp a < ev_timestamp b) (?J # ?H)"
    using hops_strict [of 1 500] pos by (simp add: join_event_def)
  have "?P e" if "e \<in> set ?H" for e
    using pos [OF that] by simp
  then have allH: "filter ?P ?H = ?H"
    by (simp add: filter_id_conv)
  have allJ: "filter ?P (?J # ?H) = ?J # ?H"
    using allH by (simp add: join_event_def)
  have ne: "?H \<noteq> []"
    using length_hops [of 1 500] by auto
  have rj: "replay (?J # ?H) {} 0 = 2"
  proof -
    have "replay (?J # ?H) {} 0 = replay ?H {''Ann''} 1"
      by (simp add: join_event_def entry_def Let_def)
    also have "\<dots> = 2"
      using ne by (simp add: replay_hops)
    finally show ?thesis .
  qed
  have rh: "replay ?H {} 0 = 1"
    using ne by (simp add: replay_hops)
  have spec: "replay_all_in_window 1000 1 busy_state = 2"
    unfolding replay_all_in_window_def Let_def log allJ sort_key_strict_id(1) [OF strict] rj
    by simp
  have "get_recent_events 1000 busy_state = take 1000 (rev ?H @ [?J])"
    unfolding get_recent_events_def log sort_key_descending_rev [OF strict] by simp
  then have fetched: "get_recent_events 1000 busy_state = rev ?H"
    by (simp add: length_hops)
  have fr: "filter ?P (rev ?H) = rev ?H"
    using allH by (simp add: rev_filter [symmetric])
  have code: "calculate_peak_players 1000 1 busy_state = 1"
    unfolding calculate_peak_players_def Let_def fetched fr
      sort_key_strict_id(2) [OF hops_strict] rh
    using ne by simp
  from len spec code show ?thesis by blast
qed

end
